theory Spec2Isabelle
  imports Complex_Main "HOL-Library.Multiset" "HOL-Library.Product_Lexorder"
begin

section \<open>Values of the Python program\<close>

text \<open>
  The program \<^verbatim>\<open>plot_perm_tot.py\<close> reads a whitespace-delimited table with pandas,
  keeps the rows whose \<^verbatim>\<open>time(ns)\<close> exceeds a threshold, sorts them by time, numbers them
  and writes a plot and two text files.

  A Python float is modelled by the exact rational value it holds, together with the
  special values of IEEE arithmetic. Comparisons follow IEEE: every comparison with
  NaN is false and the two zeros are equal.
\<close>

datatype pyfloat = Fin rat | NegZero | PInf | NInf | NaN

text \<open>The position of a float on the extended line (meaningless for NaN).\<close>

fun rank :: "pyfloat \<Rightarrow> nat" where
  "rank NInf = 0"
| "rank PInf = 2"
| "rank _ = 1"

fun val :: "pyfloat \<Rightarrow> rat" where
  "val (Fin q) = q"
| "val _ = 0"

fun isnan :: "pyfloat \<Rightarrow> bool" where
  "isnan NaN = True"
| "isnan _ = False"

definition float_lt :: "pyfloat \<Rightarrow> pyfloat \<Rightarrow> bool" where
  "float_lt a b \<longleftrightarrow>
     \<not> isnan a \<and> \<not> isnan b \<and> (rank a < rank b \<or> (rank a = rank b \<and> val a < val b))"

definition float_gt :: "pyfloat \<Rightarrow> pyfloat \<Rightarrow> bool" where
  "float_gt a b \<longleftrightarrow> float_lt b a"

definition float_eq :: "pyfloat \<Rightarrow> pyfloat \<Rightarrow> bool" where
  "float_eq a b \<longleftrightarrow> \<not> isnan a \<and> \<not> isnan b \<and> rank a = rank b \<and> val a = val b"

definition float_le :: "pyfloat \<Rightarrow> pyfloat \<Rightarrow> bool" where
  "float_le a b \<longleftrightarrow> float_lt a b \<or> float_eq a b"

text \<open>
  A cell of a DataFrame: pandas infers an \<^verbatim>\<open>int64\<close> column, a \<^verbatim>\<open>float64\<close> column or
  an \<^verbatim>\<open>object\<close> column of strings.
\<close>

datatype cell = CInt int | CFloat pyfloat | CStr string

datatype exn =
    FileNotFoundError
  | EmptyDataError
  | ParserError
  | KeyError string
  | TypeError
  | ValueError
  | OSError

text \<open>The number a cell holds, exactly; a string holds none.\<close>

fun cell_value :: "cell \<Rightarrow> exn + pyfloat" where
  "cell_value (CInt i) = Inr (Fin (of_int i))"
| "cell_value (CFloat x) = Inr x"
| "cell_value (CStr s) = Inl TypeError"

text \<open>
  The double nearest to an integer, ties to even: what the conversion of an \<^verbatim>\<open>int64\<close> to
  \<^verbatim>\<open>float64\<close> and Python's \<^verbatim>\<open>float(i)\<close> return. Integers up to \<open>2\<^sup>5\<^sup>3\<close> in magnitude are
  doubles; a larger one keeps its 53 leading bits. An integer cell has 64 bits, far
  inside the range of a double, so the conversion does not overflow.
\<close>

fun bit_length :: "nat \<Rightarrow> nat" where
  "bit_length n = (if n = 0 then 0 else Suc (bit_length (n div 2)))"

declare bit_length.simps [simp del]

definition to_double :: "int \<Rightarrow> rat" where
  "to_double i =
     (let a = nat \<bar>i\<bar> in
      if a \<le> 2 ^ 53 then of_int i
      else
        (let e = bit_length a - 53;
             q = a div 2 ^ e;
             r = a mod 2 ^ e;
             m = (if 2 * r < 2 ^ e then q else if 2 ^ e < 2 * r then q + 1
                  else if even q then q else q + 1)
         in of_int (sgn i) * of_nat (m * 2 ^ e)))"

text \<open>
  The float a cell is compared as: numpy converts an \<^verbatim>\<open>int64\<close> column to \<^verbatim>\<open>float64\<close> before
  it compares it with a float; a string cannot be compared with a float.
\<close>

fun as_float :: "cell \<Rightarrow> exn + pyfloat" where
  "as_float (CInt i) = Inr (Fin (to_double i))"
| "as_float (CFloat x) = Inr x"
| "as_float (CStr s) = Inl TypeError"

section \<open>Formatting\<close>

text \<open>The decimal digit character of a number below ten.\<close>

definition digit :: "nat \<Rightarrow> char" where
  "digit n = ''0123456789'' ! (n mod 10)"

fun dec :: "nat \<Rightarrow> string" where
  "dec n = (if n < 10 then [digit n] else dec (n div 10) @ [digit (n mod 10)])"

declare dec.simps [simp del]

text \<open>\<^verbatim>\<open>str(i)\<close> for an integer.\<close>

definition str_int :: "int \<Rightarrow> string" where
  "str_int i = (if i < 0 then CHR ''-'' # dec (nat (- i)) else dec (nat i))"

text \<open>
  Rounding a non-negative rational to the nearest integer, ties to even: the rounding
  of Python's float formatting, which is exact on the value the float holds.
\<close>

definition round_half_even :: "rat \<Rightarrow> nat" where
  "round_half_even q =
     (let f = \<lfloor>q\<rfloor>; r = q - of_int f in
      nat (if r < 1 / 2 then f else if 1 / 2 < r then f + 1
           else if even f then f else f + 1))"

text \<open>The presentation type \<^verbatim>\<open>.2f\<close>: sign, integer digits, a point, two fractional digits.\<close>

fun fixed2 :: "pyfloat \<Rightarrow> string" where
  "fixed2 (Fin q) =
     (let n = round_half_even (\<bar>q\<bar> * 100) in
      (if q < 0 then ''-'' else '''') @ dec (n div 100) @ ''.''
        @ [digit (n mod 100 div 10), digit (n mod 10)])"
| "fixed2 NegZero = ''-0.00''"
| "fixed2 PInf = ''inf''"
| "fixed2 NInf = ''-inf''"
| "fixed2 NaN = ''nan''"

text \<open>A minimum field width: the text is right-aligned, never truncated.\<close>

definition pad_left :: "nat \<Rightarrow> string \<Rightarrow> string" where
  "pad_left w s = replicate (w - length s) CHR '' '' @ s"

text \<open>
  \<^verbatim>\<open>f"{x:6.2f}"\<close>. An integer is converted to a double first; a string has no
  presentation type \<^verbatim>\<open>f\<close> and raises ValueError.
\<close>

fun format_6_2f :: "cell \<Rightarrow> exn + string" where
  "format_6_2f (CInt i) = Inr (pad_left 6 (fixed2 (Fin (to_double i))))"
| "format_6_2f (CFloat x) = Inr (pad_left 6 (fixed2 x))"
| "format_6_2f (CStr s) = Inl ValueError"

section \<open>DataFrames\<close>

text \<open>
  A DataFrame is a header of column names and a list of rows, each row holding one cell
  per column (pandas makes every frame rectangular and the column names distinct).
\<close>

record dataframe =
  columns :: "string list"
  rows :: "cell list list"

definition rect :: "dataframe \<Rightarrow> bool" where
  "rect d \<longleftrightarrow> list_all (\<lambda>r. length r = length (columns d)) (rows d)"

fun index_of :: "'a \<Rightarrow> 'a list \<Rightarrow> nat option" where
  "index_of x [] = None"
| "index_of x (y # ys) = (if x = y then Some 0 else map_option Suc (index_of x ys))"

text \<open>\<^verbatim>\<open>data[c]\<close>: the column named \<open>c\<close>, or KeyError.\<close>

definition get_column :: "dataframe \<Rightarrow> string \<Rightarrow> exn + cell list" where
  "get_column d c =
     (case index_of c (columns d) of
        None \<Rightarrow> Inl (KeyError c)
      | Some i \<Rightarrow> Inr (map (\<lambda>r. r ! i) (rows d)))"

text \<open>\<^verbatim>\<open>series > time_offset\<close>, element by element; a string cell raises TypeError.\<close>

fun gt_mask :: "cell list \<Rightarrow> pyfloat \<Rightarrow> exn + bool list" where
  "gt_mask [] T = Inr []"
| "gt_mask (c # cs) T =
     (case as_float c of
        Inl e \<Rightarrow> Inl e
      | Inr x \<Rightarrow> (case gt_mask cs T of Inl e \<Rightarrow> Inl e | Inr m \<Rightarrow> Inr (float_gt x T # m)))"

text \<open>\<^verbatim>\<open>data[mask]\<close>: the rows whose mask entry is true, in their order.\<close>

definition select_rows :: "dataframe \<Rightarrow> bool list \<Rightarrow> dataframe" where
  "select_rows d keep = d\<lparr>rows := map fst (filter snd (zip (rows d) keep))\<rparr>"

text \<open>
  \<^verbatim>\<open>data[c] = values\<close>: an existing column is overwritten in place, a new one is
  appended as the last column.
\<close>

definition set_column :: "dataframe \<Rightarrow> string \<Rightarrow> cell list \<Rightarrow> dataframe" where
  "set_column d c vs =
     (case index_of c (columns d) of
        None \<Rightarrow> d\<lparr>columns := columns d @ [c], rows := map (\<lambda>(r, v). r @ [v]) (zip (rows d) vs)\<rparr>
      | Some i \<Rightarrow> d\<lparr>rows := map (\<lambda>(r, v). r[i := v]) (zip (rows d) vs)\<rparr>)"

section \<open>The environment and the effects of a run\<close>

text \<open>What is handed to matplotlib by \<^verbatim>\<open>generate_plot\<close>.\<close>

record figure =
  step_x :: "cell list"
  step_y :: "cell list"
  step_where :: string
  title :: string
  xlabel :: string
  ylabel :: string
  xlim_left :: pyfloat
  ylim_bottom :: pyfloat

text \<open>
  The libraries and the operating system are not part of the program; a run takes them
  as parameters:
  \<^item> \<open>isfile\<close> is \<^verbatim>\<open>os.path.isfile\<close>;
  \<^item> \<open>read_csv p\<close> is \<^verbatim>\<open>pd.read_csv(p, sep='\s+', header=0, skipinitialspace=True)\<close>:
    the frame parsed from the file, or the exception raised;
  \<^item> \<open>sort_values c d\<close> is \<^verbatim>\<open>d.sort_values(by=c)\<close>, pandas' sort with its default
    \<^verbatim>\<open>kind='quicksort'\<close>;
  \<^item> \<open>str_float\<close> is \<^verbatim>\<open>str\<close> on a float;
  \<^item> \<open>plt_draw fig\<close> is the exception, if any, raised by the pyplot calls that build the
    figure, and \<open>savefig fig p\<close> the bytes that \<^verbatim>\<open>plt.savefig(p)\<close> writes, or its exception;
  \<^item> \<open>open_w p\<close> is the exception, if any, raised by \<^verbatim>\<open>open(p, "w")\<close>;
  \<^item> \<open>help_text\<close> is what \<^verbatim>\<open>parser.print_help()\<close> prints.
\<close>

record env =
  isfile :: "string \<Rightarrow> bool"
  read_csv :: "string \<Rightarrow> exn + dataframe"
  sort_values :: "string \<Rightarrow> dataframe \<Rightarrow> exn + dataframe"
  str_float :: "pyfloat \<Rightarrow> string"
  plt_draw :: "figure \<Rightarrow> exn option"
  savefig :: "figure \<Rightarrow> string \<Rightarrow> exn + string"
  open_w :: "string \<Rightarrow> exn option"
  help_text :: string

text \<open>The observable effects: the files written and the lines printed.\<close>

record world =
  files :: "string \<rightharpoonup> string"
  stdout :: "string list"

text \<open>
  A function either returns, or leaves through \<^verbatim>\<open>sys.exit(n)\<close>, or raises an exception
  that nothing catches (the interpreter then prints a traceback and the exit status is 1).
\<close>

datatype failure = SystemExit int | Uncaught exn

fun exit_status :: "failure + 'a \<Rightarrow> int" where
  "exit_status (Inr _) = 0"
| "exit_status (Inl (SystemExit n)) = n"
| "exit_status (Inl (Uncaught _)) = 1"

definition print :: "string \<Rightarrow> world \<Rightarrow> world" where
  "print line w = w\<lparr>stdout := stdout w @ [line]\<rparr>"

definition write_file :: "string \<Rightarrow> string \<Rightarrow> world \<Rightarrow> world" where
  "write_file path text w = w\<lparr>files := (files w)(path \<mapsto> text)\<rparr>"

definition newline :: char where
  "newline = CHR 0x0A"

definition apostrophe :: char where
  "apostrophe = CHR 0x27"

section \<open>The program\<close>

subsection \<open>\<^verbatim>\<open>list2str\<close>\<close>

text \<open>\<^verbatim>\<open>str(x)\<close> on a cell, and \<^verbatim>\<open>' '.join\<close>.\<close>

fun py_str :: "env \<Rightarrow> cell \<Rightarrow> string" where
  "py_str E (CInt i) = str_int i"
| "py_str E (CFloat x) = str_float E x"
| "py_str E (CStr s) = s"

fun join_space :: "string list \<Rightarrow> string" where
  "join_space [] = []"
| "join_space [s] = s"
| "join_space (s # t # ss) = s @ '' '' @ join_space (t # ss)"

definition list2str :: "env \<Rightarrow> cell list \<Rightarrow> string" where
  "list2str E l = join_space (map (py_str E) l)"

subsection \<open>\<^verbatim>\<open>load_data\<close>\<close>

text \<open>The body of the \<^verbatim>\<open>try\<close> block: read the table, keep the rows after the offset.\<close>

definition load_body :: "env \<Rightarrow> string \<Rightarrow> pyfloat \<Rightarrow> exn + dataframe" where
  "load_body E csv_file time_offset =
     (case read_csv E csv_file of
        Inl e \<Rightarrow> Inl e
      | Inr data \<Rightarrow>
          (case get_column data ''time(ns)'' of
             Inl e \<Rightarrow> Inl e
           | Inr col \<Rightarrow>
               (case gt_mask col time_offset of
                  Inl e \<Rightarrow> Inl e
                | Inr keep \<Rightarrow> Inr (select_rows data keep))))"

text \<open>
  The two handlers print one line and call \<^verbatim>\<open>sys.exit(1)\<close>; any other exception leaves
  \<^verbatim>\<open>load_data\<close> uncaught.
\<close>

definition load_data ::
  "env \<Rightarrow> string \<Rightarrow> pyfloat \<Rightarrow> world \<Rightarrow> (failure + dataframe) \<times> world" where
  "load_data E csv_file time_offset w =
     (case load_body E csv_file time_offset of
        Inr filtered_data \<Rightarrow> (Inr filtered_data, w)
      | Inl e \<Rightarrow>
          if e = FileNotFoundError then
            (Inl (SystemExit 1),
             print (''Error: The file '' @ [apostrophe] @ csv_file @ [apostrophe]
                      @ '' does not exist.'') w)
          else if e = EmptyDataError then
            (Inl (SystemExit 1),
             print (''Error: The file '' @ [apostrophe] @ csv_file @ [apostrophe]
                      @ '' is empty or not a valid CSV file.'') w)
          else (Inl (Uncaught e), w))"

subsection \<open>\<^verbatim>\<open>process_data\<close>\<close>

definition process_data :: "env \<Rightarrow> dataframe \<Rightarrow> exn + dataframe" where
  "process_data E data =
     (case sort_values E ''time(ns)'' data of
        Inl e \<Rightarrow> Inl e
      | Inr sorted_data \<Rightarrow>
          Inr (set_column sorted_data ''permeations_tot''
                 (map (\<lambda>i. CInt (int i + 1)) [0..<length (rows sorted_data)])))"

subsection \<open>\<^verbatim>\<open>generate_plot\<close>\<close>

definition generate_plot ::
  "env \<Rightarrow> dataframe \<Rightarrow> string \<Rightarrow> pyfloat \<Rightarrow> string \<Rightarrow> world \<Rightarrow> (failure + unit) \<times> world" where
  "generate_plot E data flag time_offset dirname w =
     (case get_column data ''time(ns)'' of
        Inl e \<Rightarrow> (Inl (Uncaught e), w)
      | Inr xs \<Rightarrow>
     (case get_column data ''permeations_tot'' of
        Inl e \<Rightarrow> (Inl (Uncaught e), w)
      | Inr ys \<Rightarrow>
     (let fig = \<lparr>step_x = xs, step_y = ys, step_where = ''post'',
                 title = ''Cumulated Total number of Permeations '' @ [newline] @ '' in '' @ flag,
                 xlabel = ''time(ns)'', ylabel = ''# permeations'',
                 xlim_left = time_offset, ylim_bottom = Fin 0\<rparr>
      in
     (case plt_draw E fig of
        Some e \<Rightarrow> (Inl (Uncaught e), w)
      | None \<Rightarrow>
     (let png_path = dirname @ ''/permeation_cumul_'' @ flag @ ''.png'';
          pdf_path = dirname @ ''/permeation_cumul_'' @ flag @ ''.pdf'';
          w1 = print (''Saving plot as PNG: '' @ png_path) w
      in
     (case savefig E fig png_path of
        Inl e \<Rightarrow> (Inl (Uncaught e), w1)
      | Inr png \<Rightarrow>
     (let w2 = print (''Saving plot as PDF: '' @ pdf_path) (write_file png_path png w1)
      in
     (case savefig E fig pdf_path of
        Inl e \<Rightarrow> (Inl (Uncaught e), w2)
      | Inr pdf \<Rightarrow> (Inr (), write_file pdf_path pdf w2)))))))))"

subsection \<open>\<^verbatim>\<open>save_xvg\<close>\<close>

text \<open>
  The loop over the zipped columns: the text written so far, and the exception that
  stopped the loop, if any.
\<close>

fun xvg_lines :: "(cell \<times> cell) list \<Rightarrow> string \<Rightarrow> exn option \<times> string" where
  "xvg_lines [] acc = (None, acc)"
| "xvg_lines ((t, perm) # rest) acc =
     (case format_6_2f t of
        Inl e \<Rightarrow> (Some e, acc)
      | Inr a \<Rightarrow>
          (case format_6_2f perm of
             Inl e \<Rightarrow> (Some e, acc)
           | Inr b \<Rightarrow> xvg_lines rest (acc @ a @ '' '' @ b @ [newline])))"

definition save_xvg ::
  "env \<Rightarrow> dataframe \<Rightarrow> string \<Rightarrow> string \<Rightarrow> world \<Rightarrow> (failure + unit) \<times> world" where
  "save_xvg E data flag dirname w =
     (let xvg_path = dirname @ ''/permeation_cumul_'' @ flag @ ''.xvg'' in
      case open_w E xvg_path of
        Some e \<Rightarrow> (Inl (Uncaught e), w)
      | None \<Rightarrow>
     (case get_column data ''time(ns)'' of
        Inl e \<Rightarrow> (Inl (Uncaught e), write_file xvg_path [] w)
      | Inr ts \<Rightarrow>
     (case get_column data ''permeations_tot'' of
        Inl e \<Rightarrow> (Inl (Uncaught e), write_file xvg_path [] w)
      | Inr perms \<Rightarrow>
     (case xvg_lines (zip ts perms) [] of
        (Some e, text) \<Rightarrow> (Inl (Uncaught e), write_file xvg_path text w)
      | (None, text) \<Rightarrow>
          (Inr (), print (''Saving XVG data: '' @ xvg_path) (write_file xvg_path text w))))))"

subsection \<open>\<^verbatim>\<open>save_sel\<close>\<close>

definition save_sel ::
  "env \<Rightarrow> dataframe \<Rightarrow> string \<Rightarrow> string \<Rightarrow> world \<Rightarrow> (failure + unit) \<times> world" where
  "save_sel E data flag dirname w =
     (let sel_path = dirname @ ''/permeation_selec_'' @ flag @ ''.sel'' in
      case open_w E sel_path of
        Some e \<Rightarrow> (Inl (Uncaught e), w)
      | None \<Rightarrow>
     (case get_column data ''resid'' of
        Inl e \<Rightarrow> (Inl (Uncaught e), write_file sel_path [] w)
      | Inr resids \<Rightarrow>
     (let sel = ''resname SOL TIP3 and resid '' @ list2str E resids in
      (Inr (), print (''Saving SEL file: '' @ sel_path) (write_file sel_path sel w)))))"

subsection \<open>\<^verbatim>\<open>handle_args\<close> and \<^verbatim>\<open>main\<close>\<close>

text \<open>The namespace that \<^verbatim>\<open>parser.parse_args()\<close> returns.\<close>

record args =
  args_csv_file :: string
  args_flag :: string
  args_time_offset :: pyfloat
  args_output_dir :: string

definition handle_args :: "env \<Rightarrow> args \<Rightarrow> world \<Rightarrow> (failure + args) \<times> world" where
  "handle_args E a w =
     (if \<not> isfile E (args_csv_file a) then
        (Inl (SystemExit 1),
         print (help_text E)
           (print (''Error: The file '' @ [apostrophe] @ args_csv_file a @ [apostrophe]
                     @ '' does not exist.'') w))
      else if args_flag a = [] then
        (Inl (SystemExit 1),
         print (help_text E)
           (print (''Error: The '' @ [apostrophe] @ ''flag'' @ [apostrophe]
                     @ '' argument is required.'') w))
      else (Inr a, w))"

definition main :: "env \<Rightarrow> args \<Rightarrow> world \<Rightarrow> (failure + unit) \<times> world" where
  "main E parsed w =
     (case handle_args E parsed w of
        (Inl f, w0) \<Rightarrow> (Inl f, w0)
      | (Inr a, w0) \<Rightarrow>
     (let dirname = (if args_output_dir a = [] then ''.'' else args_output_dir a) in
      case load_data E (args_csv_file a) (args_time_offset a) w0 of
        (Inl f, w1) \<Rightarrow> (Inl f, w1)
      | (Inr data, w1) \<Rightarrow>
     (case process_data E data of
        Inl e \<Rightarrow> (Inl (Uncaught e), w1)
      | Inr processed_data \<Rightarrow>
     (case generate_plot E processed_data (args_flag a) (args_time_offset a) dirname w1 of
        (Inl f, w2) \<Rightarrow> (Inl f, w2)
      | (Inr u, w2) \<Rightarrow>
     (case save_xvg E processed_data (args_flag a) dirname w2 of
        (Inl f, w3) \<Rightarrow> (Inl f, w3)
      | (Inr u, w3) \<Rightarrow> save_sel E processed_data (args_flag a) dirname w3)))))"

section \<open>Notions used in the statements\<close>

text \<open>A time cell lies strictly after the offset: the comparison of \<^verbatim>\<open>load_data\<close>.\<close>

definition time_after :: "cell \<Rightarrow> pyfloat \<Rightarrow> bool" where
  "time_after c T = (case as_float c of Inl e \<Rightarrow> False | Inr x \<Rightarrow> float_gt x T)"


text \<open>
  The position of a time cell in the order pandas sorts a numeric column by: the
  numbers ascending, NaN last.
\<close>

fun sort_pos :: "cell \<Rightarrow> nat \<times> rat" where
  "sort_pos (CInt i) = (1, of_int i)"
| "sort_pos (CFloat x) = (if isnan x then (3, 0) else (rank x, val x))"
| "sort_pos (CStr s) = (4, 0)"

text \<open>
  What pandas documents for \<^verbatim>\<open>sort_values\<close> with the default \<^verbatim>\<open>kind='quicksort'\<close>: the
  result has the same columns and the same rows, ordered by the sort column. Nothing is
  promised about the order of rows whose keys are equal (only \<^verbatim>\<open>kind='mergesort'\<close> and
  \<^verbatim>\<open>kind='stable'\<close> are documented as stable).
\<close>

definition sorted_by :: "string \<Rightarrow> dataframe \<Rightarrow> dataframe \<Rightarrow> bool" where
  "sorted_by c d d' \<longleftrightarrow>
     columns d' = columns d \<and> mset (rows d') = mset (rows d) \<and>
     (case index_of c (columns d) of
        None \<Rightarrow> False
      | Some i \<Rightarrow> sorted (map (\<lambda>r. sort_pos (r ! i)) (rows d')))"

definition sort_values_ok :: "env \<Rightarrow> string \<Rightarrow> dataframe \<Rightarrow> bool" where
  "sort_values_ok E c d \<longleftrightarrow>
     (case sort_values E c d of Inl e \<Rightarrow> False | Inr d' \<Rightarrow> sorted_by c d d')"

text \<open>
  A sort is stable on a frame when, for every key, the rows with that key come out in
  the order they went in.
\<close>

definition stable_on :: "nat \<Rightarrow> cell list list \<Rightarrow> cell list list \<Rightarrow> bool" where
  "stable_on i rs rs' \<longleftrightarrow>
     (\<forall>k. filter (\<lambda>r. sort_pos (r ! i) = k) rs' = filter (\<lambda>r. sort_pos (r ! i) = k) rs)"

text \<open>A sort that keeps rows with equal keys in their input order.\<close>

definition stable_sort_values :: "string \<Rightarrow> dataframe \<Rightarrow> exn + dataframe" where
  "stable_sort_values c d =
     (case index_of c (columns d) of
        None \<Rightarrow> Inl (KeyError c)
      | Some i \<Rightarrow> Inr (d\<lparr>rows := sort_key (\<lambda>r. sort_pos (r ! i)) (rows d)\<rparr>))"

text \<open>
  How numpy sorts up to eight 64-bit keys on a processor with AVX-512, the default
  \<^verbatim>\<open>quicksort\<close> of \<^verbatim>\<open>argsort\<close> there: eight lanes hold a key and the index of its row,
  unused lanes hold a key above every other; six rounds of compare-exchange between
  paired lanes order the keys. In a round a lane takes the smaller or the larger of its
  own and its partner's key, and keeps its index when that leaves its key as it was.
  The sort of a table below uses the network for up to eight rows and sorts a longer
  table stably.
\<close>

definition cmp_merge ::
  "nat list \<Rightarrow> bool list \<Rightarrow> ((nat \<times> rat) \<times> nat) list \<Rightarrow> ((nat \<times> rat) \<times> nat) list" where
  "cmp_merge partner upper v =
     map (\<lambda>k. let own = v ! k; other = v ! (partner ! k);
                 key = (if upper ! k then max (fst own) (fst other) else min (fst own) (fst other))
             in (key, if key = fst own then snd own else snd other))
       [0, 1, 2, 3, 4, 5, 6, 7]"

definition network8 :: "((nat \<times> rat) \<times> nat) list \<Rightarrow> ((nat \<times> rat) \<times> nat) list" where
  "network8 v =
     (let odd_up = [False, True, False, True, False, True, False, True];
          pairs_up = [False, False, True, True, False, False, True, True];
          half_up = [False, False, False, False, True, True, True, True];
          neighbour = [1, 0, 3, 2, 5, 4, 7, 6];
          mirror4 = [3, 2, 1, 0, 7, 6, 5, 4];
          mirror8 = [7, 6, 5, 4, 3, 2, 1, 0];
          second = [2, 3, 0, 1, 6, 7, 4, 5];
          v1 = cmp_merge neighbour odd_up v;
          v2 = cmp_merge mirror4 pairs_up v1;
          v3 = cmp_merge neighbour odd_up v2;
          v4 = cmp_merge mirror8 half_up v3;
          v5 = cmp_merge second pairs_up v4
      in cmp_merge neighbour odd_up v5)"

definition argsort8 :: "(nat \<times> rat) list \<Rightarrow> nat list" where
  "argsort8 ks =
     map snd (take (length ks)
       (network8 (zip (ks @ replicate (8 - length ks) (5, 0))
                      ([0..<length ks] @ replicate (8 - length ks) 0))))"

definition simd_sort_values :: "string \<Rightarrow> dataframe \<Rightarrow> exn + dataframe" where
  "simd_sort_values c d =
     (case index_of c (columns d) of
        None \<Rightarrow> Inl (KeyError c)
      | Some i \<Rightarrow>
          if length (rows d) \<le> 8
          then Inr (d\<lparr>rows := map (\<lambda>k. rows d ! k) (argsort8 (map (\<lambda>r. sort_pos (r ! i)) (rows d)))\<rparr>)
          else stable_sort_values c d)"

text \<open>
  An environment for examples: every path is a file that parses to the given result,
  every output can be written, and the plot renders.
\<close>

definition example_env ::
  "(string \<Rightarrow> dataframe \<Rightarrow> exn + dataframe) \<Rightarrow> (exn + dataframe) \<Rightarrow> env" where
  "example_env srt parsed =
     \<lparr>isfile = (\<lambda>p. True), read_csv = (\<lambda>p. parsed), sort_values = srt,
      str_float = fixed2, plt_draw = (\<lambda>fig. None), savefig = (\<lambda>fig p. Inr ''image''),
      open_w = (\<lambda>p. None), help_text = ''usage''\<rparr>"

definition empty_world :: world where
  "empty_world = \<lparr>files = Map.empty, stdout = []\<rparr>"

text \<open>The table of the specification's scenario: rows \<open>(5, 10)\<close> and \<open>(2, 20)\<close>.\<close>

definition scenario :: dataframe where
  "scenario = \<lparr>columns = [''time(ns)'', ''resid''],
               rows = [[CFloat (Fin 5), CInt 10], [CFloat (Fin 2), CInt 20]]\<rparr>"

text \<open>A cell of a numeric column.\<close>

fun numeric :: "cell \<Rightarrow> bool" where
  "numeric (CStr s) = False"
| "numeric _ = True"

text \<open>\<open>a \<le> b\<close> on two cells of one time column, as Python compares them.\<close>

definition time_le :: "cell \<Rightarrow> cell \<Rightarrow> bool" where
  "time_le a b =
     (case cell_value a of
        Inl e \<Rightarrow> False
      | Inr x \<Rightarrow> (case cell_value b of Inl e \<Rightarrow> False | Inr y \<Rightarrow> float_le x y))"

text \<open>A table in which two rows share their time.\<close>

definition tied :: dataframe where
  "tied = \<lparr>columns = [''time(ns)'', ''resid''],
            rows = [[CFloat (Fin 5), CInt 10], [CFloat (Fin 5), CInt 20]]\<rparr>"

text \<open>The field \<^verbatim>\<open>f"{x:6.2f}"\<close> of a numeric cell (empty where the format raises).\<close>

definition field :: "cell \<Rightarrow> string" where
  "field c = (case format_6_2f c of Inl e \<Rightarrow> [] | Inr s \<Rightarrow> s)"

text \<open>A float that is neither infinite nor NaN.\<close>

fun finite_float :: "pyfloat \<Rightarrow> bool" where
  "finite_float (Fin q) = True"
| "finite_float NegZero = True"
| "finite_float _ = False"

text \<open>A processed table with one row whose time needs more than six characters.\<close>

definition late :: dataframe where
  "late = \<lparr>columns = [''time(ns)'', ''resid'', ''permeations_tot''],
            rows = [[CFloat (Fin 1000), CInt 10, CInt 1]]\<rparr>"

text \<open>The characters a formatted field can hold.\<close>

definition field_chars :: "char set" where
  "field_chars = set ''0123456789'' \<union> set ''.-infa ''"

text \<open>The scenario's table after processing.\<close>

definition scenario_processed :: dataframe where
  "scenario_processed = \<lparr>columns = [''time(ns)'', ''resid'', ''permeations_tot''],
     rows = [[CFloat (Fin 2), CInt 20, CInt 1], [CFloat (Fin 5), CInt 10, CInt 2]]\<rparr>"

text \<open>The output directory and the four output paths of a run, as \<^verbatim>\<open>main\<close> builds them.\<close>

definition out_dir :: "args \<Rightarrow> string" where
  "out_dir a = (if args_output_dir a = [] then ''.'' else args_output_dir a)"

definition png_path :: "args \<Rightarrow> string" where
  "png_path a = out_dir a @ ''/permeation_cumul_'' @ args_flag a @ ''.png''"

definition pdf_path :: "args \<Rightarrow> string" where
  "pdf_path a = out_dir a @ ''/permeation_cumul_'' @ args_flag a @ ''.pdf''"

definition xvg_path :: "args \<Rightarrow> string" where
  "xvg_path a = out_dir a @ ''/permeation_cumul_'' @ args_flag a @ ''.xvg''"

definition sel_path :: "args \<Rightarrow> string" where
  "sel_path a = out_dir a @ ''/permeation_selec_'' @ args_flag a @ ''.sel''"

text \<open>The figure that \<^verbatim>\<open>generate_plot\<close> hands to matplotlib for two columns.\<close>

definition step_figure :: "cell list \<Rightarrow> cell list \<Rightarrow> string \<Rightarrow> pyfloat \<Rightarrow> figure" where
  "step_figure xs ys flag time_offset =
     \<lparr>step_x = xs, step_y = ys, step_where = ''post'',
      title = ''Cumulated Total number of Permeations '' @ [newline] @ '' in '' @ flag,
      xlabel = ''time(ns)'', ylabel = ''# permeations'',
      xlim_left = time_offset, ylim_bottom = Fin 0\<rparr>"

text \<open>The two diagnostics of the loader and of the argument check.\<close>

definition does_not_exist :: "string \<Rightarrow> string" where
  "does_not_exist csv_file =
     ''Error: The file '' @ [apostrophe] @ csv_file @ [apostrophe] @ '' does not exist.''"

definition empty_or_invalid :: "string \<Rightarrow> string" where
  "empty_or_invalid csv_file =
     ''Error: The file '' @ [apostrophe] @ csv_file @ [apostrophe]
       @ '' is empty or not a valid CSV file.''"

text \<open>Example arguments, and a table with a header and no data row.\<close>

definition example_args :: args where
  "example_args = \<lparr>args_csv_file = ''data.csv'', args_flag = ''x'',
                    args_time_offset = Fin 0, args_output_dir = []\<rparr>"

definition header_only :: dataframe where
  "header_only = \<lparr>columns = [''time(ns)'', ''resid''], rows = []\<rparr>"

text \<open>
  The effect of a run on a world: files added or overwritten, lines printed after the
  earlier ones. A step is uniform when its outcome and its effect do not depend on the
  world it starts from.
\<close>

definition effect :: "(string \<rightharpoonup> string) \<Rightarrow> string list \<Rightarrow> world \<Rightarrow> world" where
  "effect m ls w = w\<lparr>files := files w ++ m, stdout := stdout w @ ls\<rparr>"

definition uniform :: "(world \<Rightarrow> 'r \<times> world) \<Rightarrow> bool" where
  "uniform f \<longleftrightarrow> (\<exists>r m ls. \<forall>w. f w = (r, effect m ls w))"

text \<open>Running a step and, unless it fails, another one on its result and its world.\<close>

definition and_then ::
  "(world \<Rightarrow> (failure + 'a) \<times> world) \<Rightarrow> ('a \<Rightarrow> world \<Rightarrow> (failure + 'b) \<times> world)
     \<Rightarrow> world \<Rightarrow> (failure + 'b) \<times> world" where
  "and_then f g w = (case f w of (Inl e, w') \<Rightarrow> (Inl e, w') | (Inr x, w') \<Rightarrow> g x w')"

text \<open>Four rows with two pairs of equal times.\<close>

definition tied4 :: dataframe where
  "tied4 = \<lparr>columns = [''time(ns)'', ''resid''],
             rows = [[CFloat (Fin 3), CInt 10], [CFloat (Fin 3), CInt 20],
                     [CFloat (Fin 2), CInt 30], [CFloat (Fin 2), CInt 40]]\<rparr>"

text \<open>
  A processed table with an integer time above \<open>2\<^sup>5\<^sup>3\<close>, a table whose only time is
  infinite, and a processed table in which a \<^verbatim>\<open>resid\<close> occurs twice.
\<close>

definition wide_processed :: dataframe where
  "wide_processed = \<lparr>columns = [''time(ns)'', ''resid'', ''permeations_tot''],
     rows = [[CInt 5, CInt 10, CInt 1], [CInt 9007199254740993, CInt 20, CInt 2]]\<rparr>"

definition endless :: dataframe where
  "endless = \<lparr>columns = [''time(ns)'', ''resid''], rows = [[CFloat PInf, CInt 10]]\<rparr>"

definition repeated_processed :: dataframe where
  "repeated_processed = \<lparr>columns = [''time(ns)'', ''resid'', ''permeations_tot''],
     rows = [[CFloat (Fin 2), CInt 20, CInt 1], [CFloat (Fin 3), CInt 10, CInt 2],
             [CFloat (Fin 5), CInt 20, CInt 3]]\<rparr>"


section \<open>Properties of the program\<close>

subsection \<open>The loader\<close>

lemma gt_mask_eq:
  "gt_mask col T = Inr keep \<Longrightarrow> keep = map (\<lambda>c. time_after c T) col"
  by (induction col arbitrary: keep) (auto simp: time_after_def split: sum.splits)

lemma gt_mask_numeric:
  "list_all numeric col \<Longrightarrow> gt_mask col T = Inr (map (\<lambda>c. time_after c T) col)"
proof (induction col)
  case Nil
  then show ?case by simp
next
  case (Cons c cs)
  then show ?case by (cases c) (simp_all add: time_after_def)
qed

lemma gt_mask_Inr_numeric:
  "gt_mask col T = Inr keep \<Longrightarrow> list_all numeric col"
proof (induction col arbitrary: keep)
  case Nil
  then show ?case by simp
next
  case (Cons c cs)
  then show ?case by (cases c) (auto split: sum.splits)
qed

lemma select_filter:
  "map fst (filter snd (zip rs (map f rs))) = filter f rs"
  by (induction rs) auto

lemma select_rows_filter:
  "select_rows d (map f (rows d)) = d\<lparr>rows := filter f (rows d)\<rparr>"
  by (simp add: select_rows_def select_filter)

lemma load_body_numeric:
  assumes "read_csv E csv_file = Inr data"
    and "index_of ''time(ns)'' (columns data) = Some i"
    and "list_all (\<lambda>r. numeric (r ! i)) (rows data)"
  shows "load_body E csv_file T = Inr (data\<lparr>rows := filter (\<lambda>r. time_after (r ! i) T) (rows data)\<rparr>)"
proof -
  have col: "get_column data ''time(ns)'' = Inr (map (\<lambda>r. r ! i) (rows data))"
    using assms(2) by (simp add: get_column_def)
  have "list_all numeric (map (\<lambda>r. r ! i) (rows data))"
    using assms(3) by (simp add: list_all_iff)
  then have "gt_mask (map (\<lambda>r. r ! i) (rows data)) T
               = Inr (map (\<lambda>c. time_after c T) (map (\<lambda>r. r ! i) (rows data)))"
    by (rule gt_mask_numeric)
  then show ?thesis
    using assms(1) col by (simp add: load_body_def select_rows_filter comp_def)
qed

lemma load_body_Inr:
  assumes "load_body E csv_file T = Inr filtered"
  shows "\<exists>data i. read_csv E csv_file = Inr data \<and>
           index_of ''time(ns)'' (columns data) = Some i \<and>
           list_all (\<lambda>r. numeric (r ! i)) (rows data) \<and>
           filtered = data\<lparr>rows := filter (\<lambda>r. time_after (r ! i) T) (rows data)\<rparr>"
proof -
  from assms obtain data col keep where
    r: "read_csv E csv_file = Inr data" and c: "get_column data ''time(ns)'' = Inr col"
    and g: "gt_mask col T = Inr keep" and f: "filtered = select_rows data keep"
    by (auto simp: load_body_def split: sum.splits)
  from c obtain i where i: "index_of ''time(ns)'' (columns data) = Some i"
    and col: "col = map (\<lambda>r. r ! i) (rows data)"
    by (auto simp: get_column_def split: option.splits)
  have n: "list_all (\<lambda>r. numeric (r ! i)) (rows data)"
    using gt_mask_Inr_numeric [OF g] by (simp add: col list_all_iff)
  have "keep = map (\<lambda>c. time_after c T) col" using g by (rule gt_mask_eq)
  then have "filtered = data\<lparr>rows := filter (\<lambda>r. time_after (r ! i) T) (rows data)\<rparr>"
    using f col by (simp add: select_rows_filter comp_def)
  with r i n show ?thesis by blast
qed

lemma load_data_Inr:
  "load_body E csv_file T = Inr filtered \<Longrightarrow> load_data E csv_file T w = (Inr filtered, w)"
  by (simp add: load_data_def)



subsection \<open>Columns\<close>

lemma index_of_Some: "index_of c cs = Some i \<Longrightarrow> i < length cs \<and> cs ! i = c"
  by (induction cs arbitrary: i) (auto split: if_splits)

lemma index_of_snoc_new:
  "index_of c cs = None \<Longrightarrow> index_of c (cs @ [c]) = Some (length cs)"
  by (induction cs) (auto split: if_splits)

lemma index_of_snoc_other:
  "c' \<noteq> c \<Longrightarrow> index_of c' (cs @ [c]) = index_of c' cs"
  by (induction cs) auto

lemma rect_row: "rect d \<Longrightarrow> r \<in> set (rows d) \<Longrightarrow> length r = length (columns d)"
  by (simp add: rect_def list_all_iff)

lemma rect_mset:
  "mset (rows d') = mset (rows d) \<Longrightarrow> columns d' = columns d \<Longrightarrow> rect d \<Longrightarrow> rect d'"
  by (metis list_all_iff mset_eq_setD rect_def)

lemma get_set_column_same:
  assumes "rect d" and "length vs = length (rows d)"
  shows "get_column (set_column d c vs) c = Inr vs"
proof (cases "index_of c (columns d)")
  case None
  then have idx: "index_of c (columns d @ [c]) = Some (length (columns d))"
    by (simp add: index_of_snoc_new)
  have "map (\<lambda>r. r ! length (columns d)) (map (\<lambda>(r, v). r @ [v]) (zip (rows d) vs)) = vs"
  proof (rule nth_equalityI)
    show "length (map (\<lambda>r. r ! length (columns d)) (map (\<lambda>(r, v). r @ [v]) (zip (rows d) vs))) = length vs"
      using assms(2) by simp
  next
    fix k
    assume "k < length (map (\<lambda>r. r ! length (columns d)) (map (\<lambda>(r, v). r @ [v]) (zip (rows d) vs)))"
    then have k: "k < length (rows d)" using assms(2) by simp
    then have "length (rows d ! k) = length (columns d)"
      using assms(1) rect_row by simp
    then show "map (\<lambda>r. r ! length (columns d)) (map (\<lambda>(r, v). r @ [v]) (zip (rows d) vs)) ! k = vs ! k"
      using k assms(2) by (simp add: nth_append)
  qed
  then show ?thesis using None idx by (simp add: get_column_def set_column_def)
next
  case (Some i)
  then have i: "i < length (columns d)" by (simp add: index_of_Some)
  have "map (\<lambda>r. r ! i) (map (\<lambda>(r, v). r[i := v]) (zip (rows d) vs)) = vs"
  proof (rule nth_equalityI)
    show "length (map (\<lambda>r. r ! i) (map (\<lambda>(r, v). r[i := v]) (zip (rows d) vs))) = length vs"
      using assms(2) by simp
  next
    fix k
    assume "k < length (map (\<lambda>r. r ! i) (map (\<lambda>(r, v). r[i := v]) (zip (rows d) vs)))"
    then have k: "k < length (rows d)" using assms(2) by simp
    then have "length (rows d ! k) = length (columns d)"
      using assms(1) rect_row by simp
    then show "map (\<lambda>r. r ! i) (map (\<lambda>(r, v). r[i := v]) (zip (rows d) vs)) ! k = vs ! k"
      using k i assms(2) by simp
  qed
  then show ?thesis using Some by (simp add: get_column_def set_column_def)
qed

lemma get_set_column_other:
  assumes "rect d" and "length vs = length (rows d)" and "c' \<noteq> c"
  shows "get_column (set_column d c vs) c' = get_column d c'"
proof (cases "index_of c (columns d)")
  case None
  show ?thesis
  proof (cases "index_of c' (columns d)")
    case n: None
    then show ?thesis using None assms(3)
      by (simp add: get_column_def set_column_def index_of_snoc_other)
  next
    case (Some j)
    then have j: "j < length (columns d)" by (simp add: index_of_Some)
    have "map (\<lambda>r. r ! j) (map (\<lambda>(r, v). r @ [v]) (zip (rows d) vs)) = map (\<lambda>r. r ! j) (rows d)"
    proof (rule nth_equalityI)
      show "length (map (\<lambda>r. r ! j) (map (\<lambda>(r, v). r @ [v]) (zip (rows d) vs))) = length (map (\<lambda>r. r ! j) (rows d))"
        using assms(2) by simp
    next
      fix k
      assume "k < length (map (\<lambda>r. r ! j) (map (\<lambda>(r, v). r @ [v]) (zip (rows d) vs)))"
      then have k: "k < length (rows d)" using assms(2) by simp
      then have "length (rows d ! k) = length (columns d)"
        using assms(1) rect_row by simp
      then show "map (\<lambda>r. r ! j) (map (\<lambda>(r, v). r @ [v]) (zip (rows d) vs)) ! k = map (\<lambda>r. r ! j) (rows d) ! k"
        using k j assms(2) by (simp add: nth_append)
    qed
    then show ?thesis using None Some assms(3)
      by (simp add: get_column_def set_column_def index_of_snoc_other)
  qed
next
  case (Some i)
  show ?thesis
  proof (cases "index_of c' (columns d)")
    case None
    then show ?thesis using Some by (simp add: get_column_def set_column_def)
  next
    case s: (Some j)
    have "i \<noteq> j" using Some s assms(3) index_of_Some by metis
    have "map (\<lambda>r. r ! j) (map (\<lambda>(r, v). r[i := v]) (zip (rows d) vs)) = map (\<lambda>r. r ! j) (rows d)"
    proof (rule nth_equalityI)
      show "length (map (\<lambda>r. r ! j) (map (\<lambda>(r, v). r[i := v]) (zip (rows d) vs))) = length (map (\<lambda>r. r ! j) (rows d))"
        using assms(2) by simp
    next
      fix k
      assume "k < length (map (\<lambda>r. r ! j) (map (\<lambda>(r, v). r[i := v]) (zip (rows d) vs)))"
      then have k: "k < length (rows d)" using assms(2) by simp
      then show "map (\<lambda>r. r ! j) (map (\<lambda>(r, v). r[i := v]) (zip (rows d) vs)) ! k = map (\<lambda>r. r ! j) (rows d) ! k"
        using \<open>i \<noteq> j\<close> assms(2) by simp
    qed
    then show ?thesis using Some s by (simp add: get_column_def set_column_def)
  qed
qed

lemma length_rows_set_column:
  "length vs = length (rows d) \<Longrightarrow> length (rows (set_column d c vs)) = length (rows d)"
  by (simp add: set_column_def split: option.splits)

lemma range_counts: "map (\<lambda>i. int i + 1) [0..<n] = [1..int n]"
proof (induction n)
  case 0
  then show ?case by simp
next
  case (Suc n)
  have "[1..int (Suc n)] = [1..int n] @ [int n + 1]"
    using upto_rec2 [of 1 "int n + 1"] by (simp add: add.commute)
  then show ?case using Suc by simp
qed

subsection \<open>Sorting\<close>

lemma sort_pos_float:
  "cell_value c = Inr x \<Longrightarrow> \<not> isnan x \<Longrightarrow> sort_pos c = (rank x, val x)"
  by (cases c) auto

lemma time_after_float:
  "time_after c T \<Longrightarrow> \<exists>x. cell_value c = Inr x \<and> \<not> isnan x"
  by (cases c) (simp_all add: time_after_def float_gt_def float_lt_def)

lemma time_le_sort_pos:
  assumes "cell_value a = Inr x" "\<not> isnan x" "cell_value b = Inr y" "\<not> isnan y"
  shows "time_le a b \<longleftrightarrow> sort_pos a \<le> sort_pos b"
  using assms
  by (auto simp: time_le_def float_le_def float_lt_def float_eq_def sort_pos_float)

lemma sorted_time_le:
  assumes "sorted (map sort_pos ts)" and "\<forall>t\<in>set ts. time_after t T"
  shows "sorted_wrt time_le ts"
proof -
  have "sorted_wrt (\<lambda>a b. sort_pos a \<le> sort_pos b) ts"
    using assms(1) by (simp add: sorted_map)
  moreover have "\<And>a b. a \<in> set ts \<Longrightarrow> b \<in> set ts \<Longrightarrow> sort_pos a \<le> sort_pos b \<Longrightarrow> time_le a b"
    using assms(2) time_after_float time_le_sort_pos by blast
  ultimately show ?thesis by (rule sorted_wrt_mono_rel [rotated])
qed

lemma process_data_sorted:
  assumes "sort_values E ''time(ns)'' d = Inr sd"
  shows "process_data E d =
     Inr (set_column sd ''permeations_tot'' (map CInt [1..int (length (rows sd))]))"
proof -
  have "map (\<lambda>i. CInt (int i + 1)) [0..<length (rows sd)] = map CInt (map (\<lambda>i. int i + 1) [0..<length (rows sd)])"
    by simp
  then show ?thesis using assms by (simp add: process_data_def range_counts del: map_map)
qed

lemma sort_values_okD:
  assumes "sort_values_ok E c d"
  shows "\<exists>sd i. sort_values E c d = Inr sd \<and> index_of c (columns d) = Some i \<and>
           columns sd = columns d \<and> mset (rows sd) = mset (rows d) \<and>
           sorted (map (\<lambda>r. sort_pos (r ! i)) (rows sd))"
  using assms by (auto simp: sort_values_ok_def sorted_by_def split: sum.splits option.splits)

lemma stable_sort_values_ok:
  "index_of c (columns d) = Some i \<Longrightarrow> sort_values_ok (example_env stable_sort_values parsed) c d"
  by (simp add: sort_values_ok_def sorted_by_def example_env_def stable_sort_values_def)

lemma argsort8_pair_down: "argsort8 [(Suc 0, 5), (Suc 0, 2)] = [1, 0]"
  by code_simp

lemma argsort8_pair_tied: "argsort8 [(Suc 0, 5), (Suc 0, 5)] = [0, 1]"
  by code_simp

lemma argsort8_two_pairs: "argsort8 [(Suc 0, 3), (Suc 0, 3), (Suc 0, 2), (Suc 0, 2)] = [3, 2, 1, 0]"
  by code_simp

lemma filter_unique_key:
  "distinct (map f xs) \<Longrightarrow> x \<in> set xs \<Longrightarrow> filter (\<lambda>y. f x = f y) xs = [x]"
proof (induction xs)
  case Nil
  then show ?case by simp
next
  case (Cons a xs)
  show ?case
  proof (cases "a = x")
    case True
    have "\<forall>y\<in>set xs. f x \<noteq> f y" using Cons.prems(1) True by auto
    then have "filter (\<lambda>y. f x = f y) xs = []" by (simp add: filter_empty_conv)
    then show ?thesis using True by simp
  next
    case False
    then have "x \<in> set xs" using Cons.prems(2) by simp
    moreover have "f a \<notin> f ` set xs" using Cons.prems(1) by simp
    then have "f x \<noteq> f a" using \<open>x \<in> set xs\<close> by (metis imageI)
    ultimately show ?thesis using Cons by simp
  qed
qed

lemma sorted_perm_distinct_keys:
  assumes "mset ys = mset xs" and "sorted (map f ys)" and "distinct (map f xs)"
  shows "ys = sort_key f xs"
proof -
  have "mset (map f ys) = mset (map f xs)" using assms(1) by simp
  then have dy: "distinct (map f ys)" using assms(3) by (metis mset_eq_imp_distinct_iff)
  have "\<And>k. k \<in> set ys \<Longrightarrow> filter (\<lambda>x. f k = f x) ys = filter (\<lambda>x. f k = f x) xs"
  proof -
    fix k assume k: "k \<in> set ys"
    then have "k \<in> set xs" using assms(1) mset_eq_setD by blast
    then show "filter (\<lambda>x. f k = f x) ys = filter (\<lambda>x. f k = f x) xs"
      using k dy assms(3) by (simp add: filter_unique_key)
  qed
  then show ?thesis using assms(1,2) properties_for_sort_key [of ys xs f] by simp
qed

subsection \<open>The processed table\<close>


lemma processed_table:
  assumes "rect d" and "sort_values_ok E ''time(ns)'' d"
  shows "\<exists>sd i. sort_values E ''time(ns)'' d = Inr sd \<and>
           index_of ''time(ns)'' (columns d) = Some i \<and>
           columns sd = columns d \<and>
           mset (rows sd) = mset (rows d) \<and>
           sorted (map (\<lambda>r. sort_pos (r ! i)) (rows sd)) \<and>
           process_data E d
             = Inr (set_column sd ''permeations_tot'' (map CInt [1..int (length (rows d))])) \<and>
           length (rows (set_column sd ''permeations_tot'' (map CInt [1..int (length (rows d))])))
             = length (rows d) \<and>
           get_column (set_column sd ''permeations_tot'' (map CInt [1..int (length (rows d))]))
               ''permeations_tot'' = Inr (map CInt [1..int (length (rows d))]) \<and>
           get_column (set_column sd ''permeations_tot'' (map CInt [1..int (length (rows d))]))
               ''time(ns)'' = Inr (map (\<lambda>r. r ! i) (rows sd)) \<and>
           (\<forall>c. c \<noteq> ''permeations_tot'' \<longrightarrow>
              get_column (set_column sd ''permeations_tot'' (map CInt [1..int (length (rows d))])) c
                = get_column sd c)"
proof -
  from sort_values_okD [OF assms(2)] obtain sd i where
    sv: "sort_values E ''time(ns)'' d = Inr sd" and
    i: "index_of ''time(ns)'' (columns d) = Some i" and
    cols: "columns sd = columns d" and ms: "mset (rows sd) = mset (rows d)" and
    srt: "sorted (map (\<lambda>r. sort_pos (r ! i)) (rows sd))"
    by blast
  have len: "length (rows sd) = length (rows d)"
    using ms by (metis size_mset)
  have rsd: "rect sd" using ms cols assms(1) by (rule rect_mset)
  let ?cs = "map CInt [1..int (length (rows d))]"
  have lcs: "length ?cs = length (rows sd)" using len by simp
  have p: "process_data E d = Inr (set_column sd ''permeations_tot'' ?cs)"
    using process_data_sorted [OF sv] len by simp
  have g1: "get_column (set_column sd ''permeations_tot'' ?cs) ''permeations_tot'' = Inr ?cs"
    using rsd lcs by (rule get_set_column_same)
  have g3: "\<forall>c. c \<noteq> ''permeations_tot'' \<longrightarrow>
              get_column (set_column sd ''permeations_tot'' ?cs) c = get_column sd c"
    using get_set_column_other [OF rsd lcs] by blast
  have "get_column sd ''time(ns)'' = Inr (map (\<lambda>r. r ! i) (rows sd))"
    using i cols by (simp add: get_column_def)
  then have g2: "get_column (set_column sd ''permeations_tot'' ?cs) ''time(ns)''
      = Inr (map (\<lambda>r. r ! i) (rows sd))"
    using g3 by simp
  have l: "length (rows (set_column sd ''permeations_tot'' ?cs)) = length (rows d)"
    using length_rows_set_column [OF lcs] len by simp
  show ?thesis using sv i cols ms srt p l g1 g2 g3 by blast
qed

subsection \<open>Evaluating the formatter\<close>

lemma pad_left_step:
  "pad_left w s = (if length s < w then CHR '' '' # pad_left (w - 1) s else s)"
proof (cases "length s < w")
  case True
  then have "w - length s = Suc (w - 1 - length s)" by simp
  then show ?thesis using True by (simp add: pad_left_def)
next
  case False
  then show ?thesis by (simp add: pad_left_def)
qed

lemma digit_is_digit: "digit n \<in> set ''0123456789''"
  unfolding digit_def by (rule nth_mem) simp

lemmas format_eval = dec.simps Let_def round_half_even_def pad_left_step digit_def to_double_def

subsection \<open>The processor\<close>

lemma load_body_times_after:
  assumes "load_body E csv_file T = Inr filtered"
  shows "\<exists>i. index_of ''time(ns)'' (columns filtered) = Some i \<and>
           (\<forall>r\<in>set (rows filtered). time_after (r ! i) T)"
proof -
  from load_body_Inr [OF assms] obtain data i where
    "index_of ''time(ns)'' (columns data) = Some i" and
    "filtered = data\<lparr>rows := filter (\<lambda>r. time_after (r ! i) T) (rows data)\<rparr>"
    by blast
  then show ?thesis by auto
qed

text \<open>
  C2. Processing a filtered table of \<open>N\<close> rows yields a table of \<open>N\<close> rows whose
  \<^verbatim>\<open>permeations_tot\<close> column is exactly \<open>1, 2, \<dots>, N\<close> in row order (row \<open>k\<close>, counted
  from zero, holds \<open>k + 1\<close>), and whose times are non-decreasing.
\<close>

theorem process_data_counts_and_order:
  assumes "load_body E csv_file T = Inr filtered"
    and "rect filtered"
    and "sort_values_ok E ''time(ns)'' filtered"
  shows "\<exists>p ts.
           process_data E filtered = Inr p \<and>
           length (rows p) = length (rows filtered) \<and>
           get_column p ''permeations_tot'' = Inr (map CInt [1..int (length (rows filtered))]) \<and>
           (\<forall>k<length (rows filtered).
              map CInt [1..int (length (rows filtered))] ! k = CInt (int k + 1)) \<and>
           get_column p ''time(ns)'' = Inr ts \<and>
           sorted_wrt time_le ts"
proof -
  from processed_table [OF assms(2,3)] obtain sd i where
    i: "index_of ''time(ns)'' (columns filtered) = Some i" and
    ms: "mset (rows sd) = mset (rows filtered)" and
    srt: "sorted (map (\<lambda>r. sort_pos (r ! i)) (rows sd))" and
    p: "process_data E filtered
          = Inr (set_column sd ''permeations_tot'' (map CInt [1..int (length (rows filtered))]))" and
    l: "length (rows (set_column sd ''permeations_tot''
          (map CInt [1..int (length (rows filtered))]))) = length (rows filtered)" and
    g1: "get_column (set_column sd ''permeations_tot'' (map CInt [1..int (length (rows filtered))]))
          ''permeations_tot'' = Inr (map CInt [1..int (length (rows filtered))])" and
    g2: "get_column (set_column sd ''permeations_tot'' (map CInt [1..int (length (rows filtered))]))
          ''time(ns)'' = Inr (map (\<lambda>r. r ! i) (rows sd))"
    by blast
  from load_body_times_after [OF assms(1)] i
  have "\<forall>r\<in>set (rows filtered). time_after (r ! i) T" by simp
  moreover have "set (rows sd) = set (rows filtered)" using ms by (rule mset_eq_setD)
  ultimately have after: "\<forall>t\<in>set (map (\<lambda>r. r ! i) (rows sd)). time_after t T" by simp
  have "sorted (map sort_pos (map (\<lambda>r. r ! i) (rows sd)))"
    using srt by (simp add: comp_def)
  then have s: "sorted_wrt time_le (map (\<lambda>r. r ! i) (rows sd))"
    using after by (rule sorted_time_le)
  have n: "\<forall>k<length (rows filtered).
             map CInt [1..int (length (rows filtered))] ! k = CInt (int k + 1)"
    by simp
  show ?thesis using p l g1 g2 s n by blast
qed

theorem process_data_counts_and_order_witness:
  "load_body (example_env stable_sort_values (Inr scenario)) ''data.csv'' (Fin 0) = Inr scenario \<and>
   rect scenario \<and>
   sort_values_ok (example_env stable_sort_values (Inr scenario)) ''time(ns)'' scenario \<and>
   process_data (example_env stable_sort_values (Inr scenario)) scenario
     = Inr \<lparr>columns = [''time(ns)'', ''resid'', ''permeations_tot''],
            rows = [[CFloat (Fin 2), CInt 20, CInt 1], [CFloat (Fin 5), CInt 10, CInt 2]]\<rparr> \<and>
   (\<exists>p ts.
      process_data (example_env stable_sort_values (Inr scenario)) scenario = Inr p \<and>
      length (rows p) = length (rows scenario) \<and>
      get_column p ''permeations_tot'' = Inr (map CInt [1..int (length (rows scenario))]) \<and>
      (\<forall>k<length (rows scenario).
         map CInt [1..int (length (rows scenario))] ! k = CInt (int k + 1)) \<and>
      get_column p ''time(ns)'' = Inr ts \<and>
      sorted_wrt time_le ts)"
proof -
  let ?E = "example_env stable_sort_values (Inr scenario)"
  have h1: "load_body ?E ''data.csv'' (Fin 0) = Inr scenario"
    by (simp add: load_body_def example_env_def scenario_def get_column_def select_rows_def
        float_gt_def float_lt_def)
  have h2: "rect scenario" by (simp add: rect_def scenario_def)
  have h3: "sort_values_ok ?E ''time(ns)'' scenario"
    by (rule stable_sort_values_ok [where i = 0]) (simp add: scenario_def)
  have v: "process_data ?E scenario
     = Inr \<lparr>columns = [''time(ns)'', ''resid'', ''permeations_tot''],
            rows = [[CFloat (Fin 2), CInt 20, CInt 1], [CFloat (Fin 5), CInt 10, CInt 2]]\<rparr>"
    by (simp add: process_data_def example_env_def stable_sort_values_def scenario_def
        set_column_def upt_rec)
  show ?thesis
    using h1 h2 h3 v process_data_counts_and_order [OF h1 h2 h3] by blast
qed

subsection \<open>Rows with equal times\<close>

lemma stable_on_iff_sort_key:
  assumes "mset ys = mset xs" and "sorted (map (\<lambda>r. sort_pos (r ! i)) ys)"
  shows "stable_on i xs ys \<longleftrightarrow> ys = sort_key (\<lambda>r. sort_pos (r ! i)) xs"
proof
  assume st: "stable_on i xs ys"
  have "\<And>k. k \<in> set ys \<Longrightarrow>
          filter (\<lambda>x. sort_pos (k ! i) = sort_pos (x ! i)) ys
            = filter (\<lambda>x. sort_pos (k ! i) = sort_pos (x ! i)) xs"
  proof -
    fix k :: "cell list"
    have "filter (\<lambda>r. sort_pos (r ! i) = sort_pos (k ! i)) ys
            = filter (\<lambda>r. sort_pos (r ! i) = sort_pos (k ! i)) xs"
      using st unfolding stable_on_def by blast
    moreover have "(\<lambda>r. sort_pos (r ! i) = sort_pos (k ! i)) = (\<lambda>x. sort_pos (k ! i) = sort_pos (x ! i))"
      by auto
    ultimately show "filter (\<lambda>x. sort_pos (k ! i) = sort_pos (x ! i)) ys
            = filter (\<lambda>x. sort_pos (k ! i) = sort_pos (x ! i)) xs"
      by simp
  qed
  then have "sort_key (\<lambda>r. sort_pos (r ! i)) xs = ys"
    using assms by (intro properties_for_sort_key) auto
  then show "ys = sort_key (\<lambda>r. sort_pos (r ! i)) xs" by simp
next
  assume "ys = sort_key (\<lambda>r. sort_pos (r ! i)) xs"
  then show "stable_on i xs ys"
    by (simp add: stable_on_def sort_key_stable)
qed

lemma simd_sort_scenario:
  "simd_sort_values ''time(ns)'' scenario
     = Inr (scenario\<lparr>rows := [[CFloat (Fin 2), CInt 20], [CFloat (Fin 5), CInt 10]]\<rparr>)"
  by (simp add: simd_sort_values_def scenario_def argsort8_pair_down)

lemma simd_sort_tied: "simd_sort_values ''time(ns)'' tied = Inr tied"
  by (simp add: simd_sort_values_def tied_def argsort8_pair_tied)

lemma simd_sort_tied4:
  "simd_sort_values ''time(ns)'' tied4
     = Inr (tied4\<lparr>rows := [[CFloat (Fin 2), CInt 40], [CFloat (Fin 2), CInt 30],
                              [CFloat (Fin 3), CInt 20], [CFloat (Fin 3), CInt 10]]\<rparr>)"
  by (simp add: simd_sort_values_def tied4_def argsort8_two_pairs)

text \<open>
  C3, as the code has it. The processor leaves the order of rows with equal times to
  the library's default sort. When no two rows of the filtered table share a time, the
  processed table is the one a stable sort gives, whatever that sort does with ties.
  When rows share a time, they keep their input order exactly when the library's sort
  returns what a stable sort returns, and it need not.
\<close>

theorem process_data_order_of_ties:
  assumes "rect filtered"
    and "sort_values_ok E ''time(ns)'' filtered"
  shows "\<exists>sd i.
           index_of ''time(ns)'' (columns filtered) = Some i \<and>
           sort_values E ''time(ns)'' filtered = Inr sd \<and>
           process_data E filtered
             = Inr (set_column sd ''permeations_tot''
                      (map CInt [1..int (length (rows filtered))])) \<and>
           (stable_on i (rows filtered) (rows sd)
              \<longleftrightarrow> sd = filtered\<lparr>rows := sort_key (\<lambda>r. sort_pos (r ! i)) (rows filtered)\<rparr>) \<and>
           (distinct (map (\<lambda>r. sort_pos (r ! i)) (rows filtered)) \<longrightarrow>
              stable_on i (rows filtered) (rows sd) \<and>
              process_data E filtered
                = Inr (set_column
                         (filtered\<lparr>rows := sort_key (\<lambda>r. sort_pos (r ! i)) (rows filtered)\<rparr>)
                         ''permeations_tot'' (map CInt [1..int (length (rows filtered))])))"
proof -
  from processed_table [OF assms] obtain sd i where
    i: "index_of ''time(ns)'' (columns filtered) = Some i" and
    sv: "sort_values E ''time(ns)'' filtered = Inr sd" and
    cols: "columns sd = columns filtered" and
    ms: "mset (rows sd) = mset (rows filtered)" and
    srt: "sorted (map (\<lambda>r. sort_pos (r ! i)) (rows sd))" and
    p: "process_data E filtered
          = Inr (set_column sd ''permeations_tot'' (map CInt [1..int (length (rows filtered))]))"
    by blast
  let ?st = "filtered\<lparr>rows := sort_key (\<lambda>r. sort_pos (r ! i)) (rows filtered)\<rparr>"
  have rec: "sd = ?st \<longleftrightarrow> rows sd = sort_key (\<lambda>r. sort_pos (r ! i)) (rows filtered)"
  proof
    assume "sd = ?st"
    then have "rows sd = rows ?st" by simp
    then show "rows sd = sort_key (\<lambda>r. sort_pos (r ! i)) (rows filtered)" by simp
  next
    assume "rows sd = sort_key (\<lambda>r. sort_pos (r ! i)) (rows filtered)"
    then show "sd = ?st" using cols by (intro dataframe.equality) simp_all
  qed
  have iff: "stable_on i (rows filtered) (rows sd) \<longleftrightarrow> sd = ?st"
    using stable_on_iff_sort_key [OF ms srt] rec by simp
  have det: "stable_on i (rows filtered) (rows sd) \<and>
             process_data E filtered
               = Inr (set_column ?st ''permeations_tot'' (map CInt [1..int (length (rows filtered))]))"
    if "distinct (map (\<lambda>r. sort_pos (r ! i)) (rows filtered))"
  proof -
    have "rows sd = sort_key (\<lambda>r. sort_pos (r ! i)) (rows filtered)"
      using ms srt that by (rule sorted_perm_distinct_keys)
    then have "sd = ?st" using rec by simp
    then show ?thesis using iff p by simp
  qed
  show ?thesis using i sv p iff det by blast
qed

theorem process_data_order_of_ties_witness:
  "rect scenario \<and>
   sort_values_ok (example_env simd_sort_values (Inr scenario)) ''time(ns)'' scenario \<and>
   distinct (map (\<lambda>r. sort_pos (r ! 0)) (rows scenario)) \<and>
   stable_on 0 (rows scenario) [[CFloat (Fin 2), CInt 20], [CFloat (Fin 5), CInt 10]] \<and>
   process_data (example_env simd_sort_values (Inr scenario)) scenario
     = Inr (set_column
              (scenario\<lparr>rows := sort_key (\<lambda>r. sort_pos (r ! 0)) (rows scenario)\<rparr>)
              ''permeations_tot'' (map CInt [1..int (length (rows scenario))]))"
proof -
  let ?E = "example_env simd_sort_values (Inr scenario)"
  have h1: "rect scenario" by (simp add: rect_def scenario_def)
  have sv: "sort_values ?E ''time(ns)'' scenario
              = Inr (scenario\<lparr>rows := [[CFloat (Fin 2), CInt 20], [CFloat (Fin 5), CInt 10]]\<rparr>)"
    by (simp add: example_env_def simd_sort_scenario)
  have h2: "sort_values_ok ?E ''time(ns)'' scenario"
    unfolding sort_values_ok_def sv by (simp add: sorted_by_def scenario_def)
  have h3: "distinct (map (\<lambda>r. sort_pos (r ! 0)) (rows scenario))"
    by (simp add: scenario_def)
  have ix: "index_of ''time(ns)'' (columns scenario) = Some 0" by (simp add: scenario_def)
  from process_data_order_of_ties [OF h1 h2] obtain sd i where
    i: "index_of ''time(ns)'' (columns scenario) = Some i" and
    s: "sort_values ?E ''time(ns)'' scenario = Inr sd" and
    d: "distinct (map (\<lambda>r. sort_pos (r ! i)) (rows scenario)) \<longrightarrow>
          stable_on i (rows scenario) (rows sd) \<and>
          process_data ?E scenario
            = Inr (set_column
                     (scenario\<lparr>rows := sort_key (\<lambda>r. sort_pos (r ! i)) (rows scenario)\<rparr>)
                     ''permeations_tot'' (map CInt [1..int (length (rows scenario))]))"
    by blast
  have i0: "i = 0" using i ix by simp
  have r: "rows sd = [[CFloat (Fin 2), CInt 20], [CFloat (Fin 5), CInt 10]]"
    using s sv by auto
  show ?thesis using h1 h2 h3 d unfolding i0 r by simp
qed

text \<open>
  The table \<open>tied4\<close>, with times 3, 3, 2, 2, passes the loader unchanged. The sort of
  numpy on eight lanes meets what pandas documents for the default sort: it keeps the
  two rows of \<open>tied\<close> in their order, and it returns the rows of \<open>tied4\<close> in the order
  40, 30, 20, 10, so both pairs of rows with equal times leave the processor in the
  reverse of their input order.
\<close>

theorem process_data_ties_counterexample:
  "load_body (example_env simd_sort_values (Inr tied4)) ''data.csv'' (Fin 0) = Inr tied4 \<and>
   rect tied4 \<and>
   sort_values_ok (example_env simd_sort_values (Inr tied4)) ''time(ns)'' tied4 \<and>
   process_data (example_env simd_sort_values (Inr tied4)) tied4
     = Inr \<lparr>columns = [''time(ns)'', ''resid'', ''permeations_tot''],
            rows = [[CFloat (Fin 2), CInt 40, CInt 1], [CFloat (Fin 2), CInt 30, CInt 2],
                    [CFloat (Fin 3), CInt 20, CInt 3], [CFloat (Fin 3), CInt 10, CInt 4]]\<rparr> \<and>
   \<not> stable_on 0 (rows tied4)
       [[CFloat (Fin 2), CInt 40], [CFloat (Fin 2), CInt 30],
        [CFloat (Fin 3), CInt 20], [CFloat (Fin 3), CInt 10]]"
proof -
  let ?E = "example_env simd_sort_values (Inr tied4)"
  have h1: "load_body ?E ''data.csv'' (Fin 0) = Inr tied4"
    by (simp add: load_body_def example_env_def tied4_def get_column_def select_rows_def
        float_gt_def float_lt_def)
  have h2: "rect tied4" by (simp add: rect_def tied4_def)
  have sv: "sort_values ?E ''time(ns)'' tied4
     = Inr (tied4\<lparr>rows := [[CFloat (Fin 2), CInt 40], [CFloat (Fin 2), CInt 30],
                              [CFloat (Fin 3), CInt 20], [CFloat (Fin 3), CInt 10]]\<rparr>)"
    by (simp add: example_env_def simd_sort_tied4)
  have h3: "sort_values_ok ?E ''time(ns)'' tied4"
    unfolding sort_values_ok_def sv by (simp add: sorted_by_def tied4_def)
  have v: "process_data ?E tied4
     = Inr \<lparr>columns = [''time(ns)'', ''resid'', ''permeations_tot''],
            rows = [[CFloat (Fin 2), CInt 40, CInt 1], [CFloat (Fin 2), CInt 30, CInt 2],
                    [CFloat (Fin 3), CInt 20, CInt 3], [CFloat (Fin 3), CInt 10, CInt 4]]\<rparr>"
    unfolding process_data_def sv by (simp add: tied4_def set_column_def upt_rec)
  have n: "\<not> stable_on 0 (rows tied4)
       [[CFloat (Fin 2), CInt 40], [CFloat (Fin 2), CInt 30],
        [CFloat (Fin 3), CInt 20], [CFloat (Fin 3), CInt 10]]"
  proof
    assume "stable_on 0 (rows tied4)
       [[CFloat (Fin 2), CInt 40], [CFloat (Fin 2), CInt 30],
        [CFloat (Fin 3), CInt 20], [CFloat (Fin 3), CInt 10]]"
    then have "filter (\<lambda>r. sort_pos (r ! 0) = (1, 3))
                 [[CFloat (Fin 2), CInt 40], [CFloat (Fin 2), CInt 30],
                  [CFloat (Fin 3), CInt 20], [CFloat (Fin 3), CInt 10]]
               = filter (\<lambda>r. sort_pos (r ! 0) = (1, 3)) (rows tied4)"
      unfolding stable_on_def by blast
    then show False by (simp add: tied4_def)
  qed
  show ?thesis using h1 h2 h3 v n by blast
qed

subsection \<open>The numeric exporter\<close>

lemma format_numeric: "numeric c \<Longrightarrow> format_6_2f c = Inr (field c)"
  by (cases c) (simp_all add: field_def)

lemma xvg_lines_numeric:
  assumes "list_all (\<lambda>(t, perm). numeric t \<and> numeric perm) tps"
  shows "xvg_lines tps acc
           = (None, acc @ concat (map (\<lambda>(t, perm). field t @ '' '' @ field perm @ [newline]) tps))"
  using assms
proof (induction tps arbitrary: acc)
  case Nil
  then show ?case by simp
next
  case (Cons a tps)
  obtain t perm where a: "a = (t, perm)" by (cases a)
  then have n: "numeric t" "numeric perm" and rest: "list_all (\<lambda>(t, perm). numeric t \<and> numeric perm) tps"
    using Cons.prems by simp_all
  show ?case
    using Cons.IH [OF rest] by (simp add: a format_numeric [OF n(1)] format_numeric [OF n(2)])
qed

lemma dec_chars: "set (dec n) \<subseteq> set ''0123456789''"
proof (induction n rule: dec.induct)
  case (1 n)
  show ?case
  proof (cases "n < 10")
    case True
    then show ?thesis using digit_is_digit [of n] by (subst dec.simps) simp
  next
    case False
    then have "set (dec (n div 10)) \<subseteq> set ''0123456789''" using 1 by simp
    then show ?thesis
      using False digit_is_digit [of "n mod 10"] by (subst dec.simps) simp
  qed
qed

lemma dec_nonempty: "dec n \<noteq> []"
  by (subst dec.simps) simp


lemma fixed2_chars: "set (fixed2 x) \<subseteq> field_chars"
proof (cases x)
  case (Fin q)
  have d: "set (dec k) \<subseteq> field_chars" for k
    using dec_chars [of k] unfolding field_chars_def by (rule le_supI1)
  have g: "digit k \<in> field_chars" for k
    using digit_is_digit [of k] unfolding field_chars_def by (rule UnI1)
  have m: "CHR ''-'' \<in> field_chars" and pt: "CHR ''.'' \<in> field_chars"
    by (simp_all add: field_chars_def)
  let ?n = "round_half_even (\<bar>q\<bar> * 100)"
  have "set (fixed2 (Fin q)) \<subseteq> {CHR ''-'', CHR ''.'', digit (?n mod 100 div 10), digit (?n mod 10)}
          \<union> set (dec (?n div 100))"
    by (auto simp: Let_def)
  then show ?thesis using Fin d [of "?n div 100"] g m pt by blast
next
  case NegZero
  then show ?thesis by (simp add: field_chars_def)
next
  case PInf
  then show ?thesis by (simp add: field_chars_def)
next
  case NInf
  then show ?thesis by (simp add: field_chars_def)
next
  case NaN
  then show ?thesis by (simp add: field_chars_def)
qed

lemma pad_left_chars: "set s \<subseteq> field_chars \<Longrightarrow> set (pad_left w s) \<subseteq> field_chars"
  by (auto simp: pad_left_def field_chars_def)

lemma field_no_newline: "newline \<notin> set (field c)"
proof -
  have "set (pad_left 6 (fixed2 x)) \<subseteq> field_chars" for x
    using fixed2_chars by (rule pad_left_chars)
  then have "set (field c) \<subseteq> field_chars"
    by (cases c) (simp_all add: field_def del: fixed2.simps)
  moreover have "newline \<notin> field_chars" by (simp add: field_chars_def newline_def)
  ultimately show ?thesis by blast
qed

lemma count_lines:
  "length (filter (\<lambda>ch. ch = newline)
     (concat (map (\<lambda>r. field (f r) @ '' '' @ field (g r) @ [newline]) rs))) = length rs"
proof (induction rs)
  case Nil
  then show ?case by simp
next
  case (Cons r rs)
  have "filter (\<lambda>ch. ch = newline) (field c) = []" for c
    using field_no_newline [of c] by (auto simp: filter_empty_conv)
  then show ?case using Cons by (simp add: newline_def)
qed

lemma pad_left_length: "length (pad_left w s) = max w (length s)"
  by (simp add: pad_left_def)

lemma fixed2_shape:
  assumes "finite_float x"
  shows "\<exists>s d1 d2. fixed2 x = s @ [CHR ''.'', d1, d2] \<and> s \<noteq> [] \<and>
           d1 \<in> set ''0123456789'' \<and> d2 \<in> set ''0123456789''"
proof (cases x)
  case (Fin q)
  let ?n = "round_half_even (\<bar>q\<bar> * 100)"
  have "fixed2 x = ((if q < 0 then ''-'' else []) @ dec (?n div 100))
                     @ [CHR ''.'', digit (?n mod 100 div 10), digit (?n mod 10)]"
    using Fin by (simp add: Let_def)
  moreover have "(if q < 0 then ''-'' else []) @ dec (?n div 100) \<noteq> []"
    using dec_nonempty by simp
  ultimately show ?thesis using digit_is_digit by blast
next
  case NegZero
  have "fixed2 NegZero = ''-0'' @ [CHR ''.'', CHR ''0'', CHR ''0'']" by simp
  then show ?thesis unfolding NegZero by (intro exI [of _ "''-0''"] exI [of _ "CHR ''0''"]) simp
qed (use assms in simp_all)

lemma get_column_index:
  "index_of c (columns d) = Some i \<Longrightarrow> get_column d c = Inr (map (\<lambda>r. r ! i) (rows d))"
  by (simp add: get_column_def)

lemma zip_same_rows: "zip (map f rs) (map g rs) = map (\<lambda>r. (f r, g r)) rs"
  by (induction rs) simp_all

lemma save_xvg_numeric:
  assumes "open_w E (dirname @ ''/permeation_cumul_'' @ flag @ ''.xvg'') = None"
    and "index_of ''time(ns)'' (columns p) = Some i"
    and "index_of ''permeations_tot'' (columns p) = Some j"
    and "list_all (\<lambda>r. numeric (r ! i) \<and> numeric (r ! j)) (rows p)"
  shows "save_xvg E p flag dirname w =
           (Inr (),
            print (''Saving XVG data: '' @ dirname @ ''/permeation_cumul_'' @ flag @ ''.xvg'')
              (write_file (dirname @ ''/permeation_cumul_'' @ flag @ ''.xvg'')
                 (concat (map (\<lambda>r. field (r ! i) @ '' '' @ field (r ! j) @ [newline]) (rows p)))
                 w))"
proof -
  have z: "zip (map (\<lambda>r. r ! i) (rows p)) (map (\<lambda>r. r ! j) (rows p))
             = map (\<lambda>r. (r ! i, r ! j)) (rows p)"
    by (rule zip_same_rows)
  have "list_all (\<lambda>(t, perm). numeric t \<and> numeric perm) (map (\<lambda>r. (r ! i, r ! j)) (rows p))"
    using assms(4) by (simp add: list_all_iff)
  from xvg_lines_numeric [OF this, of "[]"]
  have "xvg_lines (map (\<lambda>r. (r ! i, r ! j)) (rows p)) []
          = (None, concat (map (\<lambda>r. field (r ! i) @ '' '' @ field (r ! j) @ [newline]) (rows p)))"
    by (simp add: comp_def)
  then show ?thesis
    using assms(1) get_column_index [OF assms(2)] get_column_index [OF assms(3)] z
    by (simp add: save_xvg_def Let_def)
qed

lemma bit_length_54: "bit_length 9007199254740993 = 54"
  by (simp add: bit_length.simps)

lemma to_double_rounds: "to_double 9007199254740993 = 9007199254740992"
  by (simp add: to_double_def bit_length_54 Let_def)

lemma numeric_field:
  "numeric c \<Longrightarrow> \<exists>x. as_float c = Inr x \<and> field c = pad_left 6 (fixed2 x)"
  by (cases c) (simp_all add: field_def del: fixed2.simps)

lemma fixed2_not_finite:
  "\<not> finite_float x \<Longrightarrow> fixed2 x = ''inf'' \<or> fixed2 x = ''-inf'' \<or> fixed2 x = ''nan''"
  by (cases x) simp_all

lemma numeric_field_shape:
  assumes "numeric c"
  shows "\<exists>x body.
           as_float c = Inr x \<and> body = fixed2 x \<and>
           field c = replicate (6 - length body) CHR '' '' @ body \<and>
           length (field c) = max 6 (length body) \<and>
           (if finite_float x
            then \<exists>s d1 d2. body = s @ [CHR ''.'', d1, d2] \<and> s \<noteq> [] \<and>
                   d1 \<in> set ''0123456789'' \<and> d2 \<in> set ''0123456789''
            else body = ''inf'' \<or> body = ''-inf'' \<or> body = ''nan'')"
proof -
  from numeric_field [OF assms] obtain x where
    x: "as_float c = Inr x" and f: "field c = pad_left 6 (fixed2 x)" by blast
  have a: "field c = replicate (6 - length (fixed2 x)) CHR '' '' @ fixed2 x"
    using f by (simp add: pad_left_def)
  have b: "length (field c) = max 6 (length (fixed2 x))"
    using f by (simp add: pad_left_length)
  have c: "if finite_float x
            then \<exists>s d1 d2. fixed2 x = s @ [CHR ''.'', d1, d2] \<and> s \<noteq> [] \<and>
                   d1 \<in> set ''0123456789'' \<and> d2 \<in> set ''0123456789''
            else fixed2 x = ''inf'' \<or> fixed2 x = ''-inf'' \<or> fixed2 x = ''nan''"
    using fixed2_shape [of x] fixed2_not_finite [of x] by (cases "finite_float x") simp_all
  show ?thesis using x a b c by blast
qed

text \<open>
  C4, as the code has it. The numeric exporter writes \<^verbatim>\<open>permeation_cumul_<flag>.xvg\<close> in
  the output directory: one line per row of the processed table, in table order, each
  line holding the row's time and its count separated by one space and ended by a
  newline. Each number is written from its value as a double, right-aligned with spaces
  to a width of at least six characters: a finite number with a point and exactly two
  fractional digits, an infinite time as \<^verbatim>\<open>inf\<close>. A number that needs more than six
  characters takes as many as it needs, so the width is not fixed.
\<close>

theorem save_xvg_lines:
  assumes "open_w E (dirname @ ''/permeation_cumul_'' @ flag @ ''.xvg'') = None"
    and "index_of ''time(ns)'' (columns p) = Some i"
    and "index_of ''permeations_tot'' (columns p) = Some j"
    and "list_all (\<lambda>r. numeric (r ! i) \<and> numeric (r ! j)) (rows p)"
  shows "\<exists>w' text.
           save_xvg E p flag dirname w = (Inr (), w') \<and>
           files w' (dirname @ ''/permeation_cumul_'' @ flag @ ''.xvg'') = Some text \<and>
           text = concat (map (\<lambda>r. field (r ! i) @ '' '' @ field (r ! j) @ [newline]) (rows p)) \<and>
           length (filter (\<lambda>ch. ch = newline) text) = length (rows p) \<and>
           (\<forall>r\<in>set (rows p). \<forall>c\<in>{r ! i, r ! j}.
              \<exists>x body.
                as_float c = Inr x \<and> body = fixed2 x \<and>
                field c = replicate (6 - length body) CHR '' '' @ body \<and>
                length (field c) = max 6 (length body) \<and>
                (if finite_float x
                 then \<exists>s d1 d2. body = s @ [CHR ''.'', d1, d2] \<and> s \<noteq> [] \<and>
                        d1 \<in> set ''0123456789'' \<and> d2 \<in> set ''0123456789''
                 else body = ''inf'' \<or> body = ''-inf'' \<or> body = ''nan''))"
proof -
  let ?path = "dirname @ ''/permeation_cumul_'' @ flag @ ''.xvg''"
  let ?text = "concat (map (\<lambda>r. field (r ! i) @ '' '' @ field (r ! j) @ [newline]) (rows p))"
  have run: "save_xvg E p flag dirname w =
           (Inr (), print (''Saving XVG data: '' @ ?path) (write_file ?path ?text w))"
    using assms by (rule save_xvg_numeric)
  have fl: "files (print (''Saving XVG data: '' @ ?path) (write_file ?path ?text w)) ?path
                = Some ?text"
    by (simp add: print_def write_file_def)
  have cnt: "length (filter (\<lambda>ch. ch = newline) ?text) = length (rows p)"
    by (rule count_lines)
  have shape: "\<forall>r\<in>set (rows p). \<forall>c\<in>{r ! i, r ! j}.
              \<exists>x body.
                as_float c = Inr x \<and> body = fixed2 x \<and>
                field c = replicate (6 - length body) CHR '' '' @ body \<and>
                length (field c) = max 6 (length body) \<and>
                (if finite_float x
                 then \<exists>s d1 d2. body = s @ [CHR ''.'', d1, d2] \<and> s \<noteq> [] \<and>
                        d1 \<in> set ''0123456789'' \<and> d2 \<in> set ''0123456789''
                 else body = ''inf'' \<or> body = ''-inf'' \<or> body = ''nan'')"
  proof (intro ballI)
    fix r c
    assume "r \<in> set (rows p)" and "c \<in> {r ! i, r ! j}"
    then have "numeric c" using assms(4) by (auto simp: list_all_iff)
    then show "\<exists>x body.
                as_float c = Inr x \<and> body = fixed2 x \<and>
                field c = replicate (6 - length body) CHR '' '' @ body \<and>
                length (field c) = max 6 (length body) \<and>
                (if finite_float x
                 then \<exists>s d1 d2. body = s @ [CHR ''.'', d1, d2] \<and> s \<noteq> [] \<and>
                        d1 \<in> set ''0123456789'' \<and> d2 \<in> set ''0123456789''
                 else body = ''inf'' \<or> body = ''-inf'' \<or> body = ''nan'')"
      by (rule numeric_field_shape)
  qed
  show ?thesis using run fl cnt shape by blast
qed

theorem save_xvg_lines_witness:
  "open_w (example_env stable_sort_values (Inr scenario)) (''.'' @ ''/permeation_cumul_'' @ ''x'' @ ''.xvg'') = None \<and>
   index_of ''time(ns)'' (columns wide_processed) = Some 0 \<and>
   index_of ''permeations_tot'' (columns wide_processed) = Some 2 \<and>
   list_all (\<lambda>r. numeric (r ! 0) \<and> numeric (r ! 2)) (rows wide_processed) \<and>
   (\<exists>w'. save_xvg (example_env stable_sort_values (Inr scenario)) wide_processed ''x'' ''.''
            empty_world = (Inr (), w') \<and>
         files w' ''./permeation_cumul_x.xvg''
           = Some (''  5.00   1.00'' @ [newline] @ ''9007199254740992.00   2.00'' @ [newline]))"
proof -
  let ?E = "example_env stable_sort_values (Inr scenario)"
  have h1: "open_w ?E (''.'' @ ''/permeation_cumul_'' @ ''x'' @ ''.xvg'') = None"
    by (simp add: example_env_def)
  have h2: "index_of ''time(ns)'' (columns wide_processed) = Some 0"
    by (simp add: wide_processed_def)
  have h3: "index_of ''permeations_tot'' (columns wide_processed) = Some 2"
    by (simp add: wide_processed_def)
  have h4: "list_all (\<lambda>r. numeric (r ! 0) \<and> numeric (r ! 2)) (rows wide_processed)"
    by (simp add: wide_processed_def)
  have f: "field (CInt 9007199254740993) = ''9007199254740992.00''"
    by (simp add: field_def to_double_rounds dec.simps Let_def round_half_even_def
        pad_left_step digit_def)
  have t: "concat (map (\<lambda>r. field (r ! 0) @ '' '' @ field (r ! 2) @ [newline]) (rows wide_processed))
             = ''  5.00   1.00'' @ [newline] @ ''9007199254740992.00   2.00'' @ [newline]"
    by (simp add: wide_processed_def f) (simp add: field_def format_eval)
  from save_xvg_lines [OF h1 h2 h3 h4, of empty_world]
  obtain w' out where
    "save_xvg ?E wide_processed ''x'' ''.'' empty_world = (Inr (), w')" and
    "files w' (''.'' @ ''/permeation_cumul_'' @ ''x'' @ ''.xvg'') = Some out" and
    "out = concat (map (\<lambda>r. field (r ! 0) @ '' '' @ field (r ! 2) @ [newline]) (rows wide_processed))"
    by blast
  then have "\<exists>w'. save_xvg ?E wide_processed ''x'' ''.'' empty_world = (Inr (), w') \<and>
         files w' ''./permeation_cumul_x.xvg''
           = Some (''  5.00   1.00'' @ [newline] @ ''9007199254740992.00   2.00'' @ [newline])"
    using t by auto
  then show ?thesis using h1 h2 h3 h4 by blast
qed

text \<open>
  A row at time 1000 ns: its time field is \<^verbatim>\<open>1000.00\<close>, seven characters wide, while the
  count field beside it is six wide. And a table whose only time is infinite passes the
  loader and the processor, and its line holds \<^verbatim>\<open>inf\<close>, which has no fractional digits.
\<close>

theorem save_xvg_width_counterexample:
  "files (snd (save_xvg (example_env stable_sort_values (Inr scenario)) late ''x'' ''.'' empty_world))
     ''./permeation_cumul_x.xvg'' = Some (''1000.00   1.00'' @ [newline]) \<and>
   field (CFloat (Fin 1000)) = ''1000.00'' \<and>
   length (field (CFloat (Fin 1000))) \<noteq> 6 \<and>
   length (field (CInt 1)) = 6 \<and>
   load_body (example_env stable_sort_values (Inr endless)) ''data.csv'' (Fin 0) = Inr endless \<and>
   process_data (example_env stable_sort_values (Inr endless)) endless
     = Inr \<lparr>columns = [''time(ns)'', ''resid'', ''permeations_tot''],
            rows = [[CFloat PInf, CInt 10, CInt 1]]\<rparr> \<and>
   files (snd (save_xvg (example_env stable_sort_values (Inr endless))
                 \<lparr>columns = [''time(ns)'', ''resid'', ''permeations_tot''],
                  rows = [[CFloat PInf, CInt 10, CInt 1]]\<rparr> ''x'' ''.'' empty_world))
     ''./permeation_cumul_x.xvg'' = Some (''   inf   1.00'' @ [newline])"
proof -
  have a: "files (snd (save_xvg (example_env stable_sort_values (Inr scenario)) late ''x'' ''.'' empty_world))
     ''./permeation_cumul_x.xvg'' = Some (''1000.00   1.00'' @ [newline]) \<and>
   field (CFloat (Fin 1000)) = ''1000.00'' \<and>
   length (field (CFloat (Fin 1000))) \<noteq> 6 \<and>
   length (field (CInt 1)) = 6"
    by (simp add: save_xvg_def example_env_def late_def get_column_def field_def format_eval
      print_def write_file_def empty_world_def)
  have b: "load_body (example_env stable_sort_values (Inr endless)) ''data.csv'' (Fin 0) = Inr endless"
    by (simp add: load_body_def example_env_def endless_def get_column_def select_rows_def
        float_gt_def float_lt_def)
  have c: "process_data (example_env stable_sort_values (Inr endless)) endless
     = Inr \<lparr>columns = [''time(ns)'', ''resid'', ''permeations_tot''],
            rows = [[CFloat PInf, CInt 10, CInt 1]]\<rparr>"
    by (simp add: process_data_def example_env_def stable_sort_values_def endless_def
        set_column_def upt_rec)
  have d: "files (snd (save_xvg (example_env stable_sort_values (Inr endless))
                 \<lparr>columns = [''time(ns)'', ''resid'', ''permeations_tot''],
                  rows = [[CFloat PInf, CInt 10, CInt 1]]\<rparr> ''x'' ''.'' empty_world))
     ''./permeation_cumul_x.xvg'' = Some (''   inf   1.00'' @ [newline])"
    by (simp add: save_xvg_def example_env_def get_column_def format_eval
      print_def write_file_def empty_world_def)
  show ?thesis using a b c d by blast
qed

subsection \<open>The selection exporter\<close>

lemma join_space_chars:
  "c \<in> set (join_space ss) \<Longrightarrow> c = CHR '' '' \<or> (\<exists>s\<in>set ss. c \<in> set s)"
  by (induction ss rule: join_space.induct) auto

lemma save_sel_run:
  assumes "open_w E (dirname @ ''/permeation_selec_'' @ flag @ ''.sel'') = None"
    and "index_of ''resid'' (columns p) = Some j"
  shows "save_sel E p flag dirname w =
           (Inr (),
            print (''Saving SEL file: '' @ dirname @ ''/permeation_selec_'' @ flag @ ''.sel'')
              (write_file (dirname @ ''/permeation_selec_'' @ flag @ ''.sel'')
                 (''resname SOL TIP3 and resid '' @ join_space (map (\<lambda>r. py_str E (r ! j)) (rows p)))
                 w))"
  using assms(1) get_column_index [OF assms(2)]
  by (simp add: save_sel_def Let_def list2str_def comp_def)

lemma join_space_concat:
  "ss \<noteq> [] \<Longrightarrow> CHR '' '' # join_space ss = concat (map (\<lambda>s. CHR '' '' # s) ss)"
  by (induction ss rule: join_space.induct) simp_all

lemma sel_text:
  "''resname SOL TIP3 and resid '' @ join_space ss
     = ''resname SOL TIP3 and resid''
         @ (if ss = [] then '' '' else concat (map (\<lambda>s. CHR '' '' # s) ss))"
  using join_space_concat [of ss] by (cases "ss = []") simp_all

text \<open>
  C5. The selection exporter writes \<^verbatim>\<open>permeation_selec_<flag>.sel\<close> in the output
  directory. Its content is the literal \<^verbatim>\<open>resname SOL TIP3 and resid\<close> followed, for every
  row of the processed table in table order, by a space and the text of the row's
  \<^verbatim>\<open>resid\<close>: one entry per row, repeated values repeated, nothing reordered (with no row,
  the literal is followed by one space). The content is a single line as long as no
  \<^verbatim>\<open>resid\<close> text holds a newline.
\<close>

theorem save_sel_content:
  assumes "open_w E (dirname @ ''/permeation_selec_'' @ flag @ ''.sel'') = None"
    and "index_of ''resid'' (columns p) = Some j"
  shows "\<exists>w' sel.
           save_sel E p flag dirname w = (Inr (), w') \<and>
           files w' (dirname @ ''/permeation_selec_'' @ flag @ ''.sel'') = Some sel \<and>
           sel = ''resname SOL TIP3 and resid''
                   @ (if rows p = [] then '' ''
                      else concat (map (\<lambda>r. CHR '' '' # py_str E (r ! j)) (rows p))) \<and>
           ((\<forall>r\<in>set (rows p). newline \<notin> set (py_str E (r ! j))) \<longrightarrow> newline \<notin> set sel)"
proof -
  let ?path = "dirname @ ''/permeation_selec_'' @ flag @ ''.sel''"
  let ?sel = "''resname SOL TIP3 and resid '' @ join_space (map (\<lambda>r. py_str E (r ! j)) (rows p))"
  have run: "save_sel E p flag dirname w =
               (Inr (), print (''Saving SEL file: '' @ ?path) (write_file ?path ?sel w))"
    using assms by (rule save_sel_run)
  have fl: "files (print (''Saving SEL file: '' @ ?path) (write_file ?path ?sel w)) ?path = Some ?sel"
    by (simp add: print_def write_file_def)
  have eq: "?sel = ''resname SOL TIP3 and resid''
                   @ (if rows p = [] then '' ''
                      else concat (map (\<lambda>r. CHR '' '' # py_str E (r ! j)) (rows p)))"
    using sel_text [of "map (\<lambda>r. py_str E (r ! j)) (rows p)"] by (simp add: comp_def)
  have one: "newline \<notin> set ?sel"
    if "\<forall>r\<in>set (rows p). newline \<notin> set (py_str E (r ! j))"
  proof
    assume "newline \<in> set ?sel"
    then have "newline \<in> set (join_space (map (\<lambda>r. py_str E (r ! j)) (rows p)))"
      by (simp add: newline_def)
    from join_space_chars [OF this] that show False by (auto simp: newline_def)
  qed
  show ?thesis using run fl eq one by metis
qed

theorem save_sel_content_witness:
  "open_w (example_env stable_sort_values (Inr scenario)) (''.'' @ ''/permeation_selec_'' @ ''x'' @ ''.sel'') = None \<and>
   index_of ''resid'' (columns repeated_processed) = Some 1 \<and>
   list_all (\<lambda>r. newline \<notin> set (py_str (example_env stable_sort_values (Inr scenario)) (r ! 1)))
     (rows repeated_processed) \<and>
   (\<exists>w'. save_sel (example_env stable_sort_values (Inr scenario)) repeated_processed ''x'' ''.''
            empty_world = (Inr (), w') \<and>
         files w' ''./permeation_selec_x.sel'' = Some ''resname SOL TIP3 and resid 20 10 20'' \<and>
         newline \<notin> set ''resname SOL TIP3 and resid 20 10 20'')"
proof -
  let ?E = "example_env stable_sort_values (Inr scenario)"
  have h1: "open_w ?E (''.'' @ ''/permeation_selec_'' @ ''x'' @ ''.sel'') = None"
    by (simp add: example_env_def)
  have h2: "index_of ''resid'' (columns repeated_processed) = Some 1"
    by (simp add: repeated_processed_def)
  have h3: "\<forall>r\<in>set (rows repeated_processed). newline \<notin> set (py_str ?E (r ! 1))"
    by (simp add: repeated_processed_def str_int_def format_eval newline_def)
  have t: "''resname SOL TIP3 and resid''
             @ (if rows repeated_processed = [] then '' ''
                else concat (map (\<lambda>r. CHR '' '' # py_str ?E (r ! 1)) (rows repeated_processed)))
           = ''resname SOL TIP3 and resid 20 10 20''"
    by (simp add: repeated_processed_def str_int_def format_eval)
  from save_sel_content [OF h1 h2, of empty_world]
  obtain w' sel where
    "save_sel ?E repeated_processed ''x'' ''.'' empty_world = (Inr (), w')" and
    "files w' (''.'' @ ''/permeation_selec_'' @ ''x'' @ ''.sel'') = Some sel" and
    "sel = ''resname SOL TIP3 and resid''
             @ (if rows repeated_processed = [] then '' ''
                else concat (map (\<lambda>r. CHR '' '' # py_str ?E (r ! 1)) (rows repeated_processed)))" and
    "(\<forall>r\<in>set (rows repeated_processed). newline \<notin> set (py_str ?E (r ! 1))) \<longrightarrow> newline \<notin> set sel"
    by blast
  then have "\<exists>w'. save_sel ?E repeated_processed ''x'' ''.'' empty_world = (Inr (), w') \<and>
         files w' ''./permeation_selec_x.sel'' = Some ''resname SOL TIP3 and resid 20 10 20'' \<and>
         newline \<notin> set ''resname SOL TIP3 and resid 20 10 20''"
    using t h3 by auto
  then show ?thesis using h1 h2 h3 by (simp add: list_all_iff)
qed

text \<open>
  C10. When the processed table has no rows the selection file holds exactly
  \<^verbatim>\<open>resname SOL TIP3 and resid\<close> followed by one space. For every table, nothing is
  written after the last \<^verbatim>\<open>resid\<close>: the content ends with the text of the last
  \<^verbatim>\<open>resid\<close> (with the space after the literal when there is none), so it does not end with
  a newline unless a \<^verbatim>\<open>resid\<close> text does.
\<close>

theorem save_sel_no_trailing_newline:
  assumes "open_w E (dirname @ ''/permeation_selec_'' @ flag @ ''.sel'') = None"
    and "index_of ''resid'' (columns p) = Some j"
  shows "\<exists>w' sel.
           save_sel E p flag dirname w = (Inr (), w') \<and>
           files w' (dirname @ ''/permeation_selec_'' @ flag @ ''.sel'') = Some sel \<and>
           (rows p = [] \<longrightarrow> sel = ''resname SOL TIP3 and resid '') \<and>
           (rows p \<noteq> [] \<and> py_str E (last (rows p) ! j) \<noteq> [] \<longrightarrow>
              last sel = last (py_str E (last (rows p) ! j))) \<and>
           ((\<forall>r\<in>set (rows p). newline \<notin> set (py_str E (r ! j))) \<longrightarrow> last sel \<noteq> newline)"
proof -
  let ?path = "dirname @ ''/permeation_selec_'' @ flag @ ''.sel''"
  let ?ids = "map (\<lambda>r. py_str E (r ! j)) (rows p)"
  let ?sel = "''resname SOL TIP3 and resid '' @ join_space ?ids"
  have run: "save_sel E p flag dirname w =
               (Inr (), print (''Saving SEL file: '' @ ?path) (write_file ?path ?sel w))"
    using assms by (rule save_sel_run)
  have fl: "files (print (''Saving SEL file: '' @ ?path) (write_file ?path ?sel w)) ?path = Some ?sel"
    by (simp add: print_def write_file_def)
  have empty: "rows p = [] \<longrightarrow> ?sel = ''resname SOL TIP3 and resid ''" by simp
  have lj: "ss \<noteq> [] \<Longrightarrow> last ss \<noteq> [] \<Longrightarrow> last (join_space ss) = last (last ss) \<and> join_space ss \<noteq> []"
    for ss :: "string list"
    by (induction ss rule: join_space.induct) auto
  have lst: "last ?sel = last (py_str E (last (rows p) ! j))"
    if "rows p \<noteq> []" and "py_str E (last (rows p) ! j) \<noteq> []"
  proof -
    have "?ids \<noteq> []" using that(1) by simp
    moreover have "last ?ids = py_str E (last (rows p) ! j)" using that(1) by (simp add: last_map)
    ultimately have "last (join_space ?ids) = last (py_str E (last (rows p) ! j)) \<and> join_space ?ids \<noteq> []"
      using lj [of ?ids] that(2) by simp
    then show ?thesis by simp
  qed
  have nonl: "last ?sel \<noteq> newline"
    if a: "\<forall>r\<in>set (rows p). newline \<notin> set (py_str E (r ! j))"
  proof
    assume e: "last ?sel = newline"
    have "last ?sel \<in> set ?sel" by (rule last_in_set) simp
    then have "newline \<in> set ?sel" using e by simp
    then have "newline \<in> set (join_space ?ids)" by (simp add: newline_def)
    from join_space_chars [OF this] a show False by (auto simp: newline_def)
  qed
  show ?thesis using run fl empty lst nonl by blast
qed

theorem save_sel_no_trailing_newline_witness:
  "open_w (example_env stable_sort_values (Inr scenario)) (''.'' @ ''/permeation_selec_'' @ ''x'' @ ''.sel'') = None \<and>
   index_of ''resid'' (columns (scenario_processed\<lparr>rows := []\<rparr>)) = Some 1 \<and>
   rows (scenario_processed\<lparr>rows := []\<rparr>) = [] \<and>
   (\<exists>w'. save_sel (example_env stable_sort_values (Inr scenario)) (scenario_processed\<lparr>rows := []\<rparr>)
            ''x'' ''.'' empty_world = (Inr (), w') \<and>
         files w' ''./permeation_selec_x.sel'' = Some ''resname SOL TIP3 and resid '' \<and>
         last ''resname SOL TIP3 and resid '' \<noteq> newline)"
proof -
  let ?E = "example_env stable_sort_values (Inr scenario)"
  let ?p = "scenario_processed\<lparr>rows := []\<rparr>"
  have h1: "open_w ?E (''.'' @ ''/permeation_selec_'' @ ''x'' @ ''.sel'') = None"
    by (simp add: example_env_def)
  have h2: "index_of ''resid'' (columns ?p) = Some 1"
    by (simp add: scenario_processed_def)
  have h3: "rows ?p = []" by simp
  from save_sel_no_trailing_newline [OF h1 h2, of empty_world]
  obtain w' sel where
    "save_sel ?E ?p ''x'' ''.'' empty_world = (Inr (), w')" and
    "files w' (''.'' @ ''/permeation_selec_'' @ ''x'' @ ''.sel'') = Some sel" and
    "rows ?p = [] \<longrightarrow> sel = ''resname SOL TIP3 and resid ''" and
    "(\<forall>r\<in>set (rows ?p). newline \<notin> set (py_str ?E (r ! 1))) \<longrightarrow> last sel \<noteq> newline"
    by blast
  then have "\<exists>w'. save_sel ?E ?p ''x'' ''.'' empty_world = (Inr (), w') \<and>
         files w' ''./permeation_selec_x.sel'' = Some ''resname SOL TIP3 and resid '' \<and>
         last ''resname SOL TIP3 and resid '' \<noteq> newline"
    by auto
  then show ?thesis using h1 h2 h3 by blast
qed

subsection \<open>A whole run\<close>

lemma main_run:
  assumes "isfile E (args_csv_file a)"
    and "args_flag a \<noteq> []"
    and "load_body E (args_csv_file a) (args_time_offset a) = Inr filtered"
    and "process_data E filtered = Inr p"
    and "get_column p ''time(ns)'' = Inr ts"
    and "get_column p ''permeations_tot'' = Inr perms"
    and "get_column p ''resid'' = Inr resids"
    and "plt_draw E (step_figure ts perms (args_flag a) (args_time_offset a)) = None"
    and "savefig E (step_figure ts perms (args_flag a) (args_time_offset a)) (png_path a) = Inr png"
    and "savefig E (step_figure ts perms (args_flag a) (args_time_offset a)) (pdf_path a) = Inr pdf"
    and "open_w E (xvg_path a) = None"
    and "xvg_lines (zip ts perms) [] = (None, xvg)"
    and "open_w E (sel_path a) = None"
  shows "main E a w =
           (Inr (),
            w\<lparr>files := (files w)(png_path a \<mapsto> png, pdf_path a \<mapsto> pdf, xvg_path a \<mapsto> xvg,
                          sel_path a \<mapsto> ''resname SOL TIP3 and resid '' @ list2str E resids),
              stdout := stdout w @ [''Saving plot as PNG: '' @ png_path a,
                                    ''Saving plot as PDF: '' @ pdf_path a,
                                    ''Saving XVG data: '' @ xvg_path a,
                                    ''Saving SEL file: '' @ sel_path a]\<rparr>)"
proof -
  have ha: "handle_args E a w = (Inr a, w)"
    using assms(1,2) by (simp add: handle_args_def)
  have ld: "load_data E (args_csv_file a) (args_time_offset a) w = (Inr filtered, w)"
    using assms(3) by (rule load_data_Inr)
  let ?w2 = "w\<lparr>files := (files w)(png_path a \<mapsto> png, pdf_path a \<mapsto> pdf),
              stdout := stdout w @ [''Saving plot as PNG: '' @ png_path a,
                                    ''Saving plot as PDF: '' @ pdf_path a]\<rparr>"
  have gp: "generate_plot E p (args_flag a) (args_time_offset a) (out_dir a) w = (Inr (), ?w2)"
    using assms(5,6,8,9,10)
    by (simp add: generate_plot_def step_figure_def png_path_def pdf_path_def Let_def
        print_def write_file_def)
  let ?w3 = "?w2\<lparr>files := (files ?w2)(xvg_path a \<mapsto> xvg),
               stdout := stdout ?w2 @ [''Saving XVG data: '' @ xvg_path a]\<rparr>"
  have sx: "save_xvg E p (args_flag a) (out_dir a) ?w2 = (Inr (), ?w3)"
    using assms(5,6,11,12)
    by (simp add: save_xvg_def xvg_path_def Let_def print_def write_file_def)
  let ?w4 = "?w3\<lparr>files := (files ?w3)(sel_path a \<mapsto> ''resname SOL TIP3 and resid '' @ list2str E resids),
               stdout := stdout ?w3 @ [''Saving SEL file: '' @ sel_path a]\<rparr>"
  have ss: "save_sel E p (args_flag a) (out_dir a) ?w3 = (Inr (), ?w4)"
    using assms(7,13)
    by (simp add: save_sel_def sel_path_def Let_def print_def write_file_def)
  have "main E a w = (Inr (), ?w4)"
    unfolding main_def ha Let_def using ld assms(4) gp sx ss
    by (simp add: out_dir_def)
  then show ?thesis by simp
qed

lemma paths_distinct:
  "png_path a \<noteq> pdf_path a" "png_path a \<noteq> xvg_path a" "png_path a \<noteq> sel_path a"
  "pdf_path a \<noteq> xvg_path a" "pdf_path a \<noteq> sel_path a" "xvg_path a \<noteq> sel_path a"
  by (simp_all add: png_path_def pdf_path_def xvg_path_def sel_path_def)

lemma process_data_no_rows:
  assumes "sort_values_ok E ''time(ns)'' d" and "rows d = []"
    and "index_of ''resid'' (columns d) = Some k"
  shows "\<exists>p. process_data E d = Inr p \<and> get_column p ''time(ns)'' = Inr [] \<and>
           get_column p ''permeations_tot'' = Inr [] \<and> get_column p ''resid'' = Inr []"
proof -
  from sort_values_okD [OF assms(1)] obtain sd i where
    sv: "sort_values E ''time(ns)'' d = Inr sd" and
    i: "index_of ''time(ns)'' (columns d) = Some i" and
    cols: "columns sd = columns d" and ms: "mset (rows sd) = mset (rows d)"
    by blast
  have e: "rows sd = []" using ms assms(2) by simp
  have r: "rect sd" using e by (simp add: rect_def)
  let ?p = "set_column sd ''permeations_tot'' []"
  have p: "process_data E d = Inr ?p"
    using process_data_sorted [OF sv] e by simp
  have l: "length ([] :: cell list) = length (rows sd)" using e by simp
  have g1: "get_column ?p ''permeations_tot'' = Inr []"
    using r l by (rule get_set_column_same)
  have "get_column ?p ''time(ns)'' = get_column sd ''time(ns)''"
    using r l by (rule get_set_column_other) simp
  then have g2: "get_column ?p ''time(ns)'' = Inr []"
    using i cols e by (simp add: get_column_def)
  have "get_column ?p ''resid'' = get_column sd ''resid''"
    using r l by (rule get_set_column_other) simp
  then have g3: "get_column ?p ''resid'' = Inr []"
    using assms(3) cols e by (simp add: get_column_def)
  show ?thesis using p g1 g2 g3 by blast
qed

text \<open>
  C7. When the input table has no row after the offset (a header and no data row, or an
  offset that filters every row out), the run completes with exit status 0: matplotlib
  is handed a plot without points, the \<^verbatim>\<open>.xvg\<close> file is empty, and the \<^verbatim>\<open>.sel\<close> file holds
  the literal with an empty list. The table must have the two columns the program
  reads, and the plot and the output files must be writable.
\<close>

theorem main_zero_rows:
  assumes "isfile E (args_csv_file a)"
    and "args_flag a \<noteq> []"
    and "read_csv E (args_csv_file a) = Inr data"
    and "index_of ''time(ns)'' (columns data) = Some i"
    and "index_of ''resid'' (columns data) = Some k"
    and "list_all (\<lambda>r. numeric (r ! i)) (rows data)"
    and "filter (\<lambda>r. time_after (r ! i) (args_time_offset a)) (rows data) = []"
    and "sort_values_ok E ''time(ns)'' (data\<lparr>rows := []\<rparr>)"
    and "plt_draw E (step_figure [] [] (args_flag a) (args_time_offset a)) = None"
    and "savefig E (step_figure [] [] (args_flag a) (args_time_offset a)) (png_path a) = Inr png"
    and "savefig E (step_figure [] [] (args_flag a) (args_time_offset a)) (pdf_path a) = Inr pdf"
    and "open_w E (xvg_path a) = None"
    and "open_w E (sel_path a) = None"
  shows "\<exists>w'. main E a w = (Inr (), w') \<and>
           exit_status (fst (main E a w)) = 0 \<and>
           files w' (png_path a) = Some png \<and>
           files w' (pdf_path a) = Some pdf \<and>
           files w' (xvg_path a) = Some [] \<and>
           files w' (sel_path a) = Some ''resname SOL TIP3 and resid ''"
proof -
  have lb: "load_body E (args_csv_file a) (args_time_offset a) = Inr (data\<lparr>rows := []\<rparr>)"
    using load_body_numeric [OF assms(3,4,6), of "args_time_offset a"] assms(7) by simp
  have "index_of ''resid'' (columns (data\<lparr>rows := []\<rparr>)) = Some k" using assms(5) by simp
  from process_data_no_rows [OF assms(8) _ this] obtain p where
    p: "process_data E (data\<lparr>rows := []\<rparr>) = Inr p" and
    g: "get_column p ''time(ns)'' = Inr []" "get_column p ''permeations_tot'' = Inr []"
       "get_column p ''resid'' = Inr []"
    by auto
  have x: "xvg_lines (zip [] []) [] = (None, [])" by simp
  have "main E a w =
           (Inr (),
            w\<lparr>files := (files w)(png_path a \<mapsto> png, pdf_path a \<mapsto> pdf, xvg_path a \<mapsto> [],
                          sel_path a \<mapsto> ''resname SOL TIP3 and resid '' @ list2str E []),
              stdout := stdout w @ [''Saving plot as PNG: '' @ png_path a,
                                    ''Saving plot as PDF: '' @ pdf_path a,
                                    ''Saving XVG data: '' @ xvg_path a,
                                    ''Saving SEL file: '' @ sel_path a]\<rparr>)"
    using assms(1,2) lb p g(1,2,3) assms(9,10,11,12) x assms(13) by (rule main_run)
  then show ?thesis
    using paths_distinct [of a] by (simp add: list2str_def)
qed

theorem main_zero_rows_witness:
  "isfile (example_env stable_sort_values (Inr header_only)) (args_csv_file example_args) \<and>
   args_flag example_args \<noteq> [] \<and>
   read_csv (example_env stable_sort_values (Inr header_only)) (args_csv_file example_args)
     = Inr header_only \<and>
   index_of ''time(ns)'' (columns header_only) = Some 0 \<and>
   index_of ''resid'' (columns header_only) = Some 1 \<and>
   list_all (\<lambda>r. numeric (r ! 0)) (rows header_only) \<and>
   filter (\<lambda>r. time_after (r ! 0) (args_time_offset example_args)) (rows header_only) = [] \<and>
   sort_values_ok (example_env stable_sort_values (Inr header_only)) ''time(ns)''
     (header_only\<lparr>rows := []\<rparr>) \<and>
   (\<exists>w'. main (example_env stable_sort_values (Inr header_only)) example_args empty_world
            = (Inr (), w') \<and>
         exit_status (fst (main (example_env stable_sort_values (Inr header_only)) example_args
            empty_world)) = 0 \<and>
         files w' ''./permeation_cumul_x.png'' = Some ''image'' \<and>
         files w' ''./permeation_cumul_x.pdf'' = Some ''image'' \<and>
         files w' ''./permeation_cumul_x.xvg'' = Some [] \<and>
         files w' ''./permeation_selec_x.sel'' = Some ''resname SOL TIP3 and resid '')"
proof -
  let ?E = "example_env stable_sort_values (Inr header_only)"
  let ?a = "example_args"
  have h1: "isfile ?E (args_csv_file ?a)" by (simp add: example_env_def)
  have h2: "args_flag ?a \<noteq> []" by (simp add: example_args_def)
  have h3: "read_csv ?E (args_csv_file ?a) = Inr header_only" by (simp add: example_env_def)
  have h4: "index_of ''time(ns)'' (columns header_only) = Some 0" by (simp add: header_only_def)
  have h5: "index_of ''resid'' (columns header_only) = Some 1" by (simp add: header_only_def)
  have h6: "list_all (\<lambda>r. numeric (r ! 0)) (rows header_only)" by (simp add: header_only_def)
  have h7: "filter (\<lambda>r. time_after (r ! 0) (args_time_offset ?a)) (rows header_only) = []"
    by (simp add: header_only_def)
  have h8: "sort_values_ok ?E ''time(ns)'' (header_only\<lparr>rows := []\<rparr>)"
    by (rule stable_sort_values_ok [where i = 0]) (simp add: header_only_def)
  have h9: "plt_draw ?E (step_figure [] [] (args_flag ?a) (args_time_offset ?a)) = None"
    by (simp add: example_env_def)
  have h10: "savefig ?E (step_figure [] [] (args_flag ?a) (args_time_offset ?a)) (png_path ?a)
               = Inr ''image''"
    by (simp add: example_env_def)
  have h11: "savefig ?E (step_figure [] [] (args_flag ?a) (args_time_offset ?a)) (pdf_path ?a)
               = Inr ''image''"
    by (simp add: example_env_def)
  have h12: "open_w ?E (xvg_path ?a) = None" by (simp add: example_env_def)
  have h13: "open_w ?E (sel_path ?a) = None" by (simp add: example_env_def)
  have paths: "png_path ?a = ''./permeation_cumul_x.png''" "pdf_path ?a = ''./permeation_cumul_x.pdf''"
    "xvg_path ?a = ''./permeation_cumul_x.xvg''" "sel_path ?a = ''./permeation_selec_x.sel''"
    by (simp_all add: png_path_def pdf_path_def xvg_path_def sel_path_def out_dir_def example_args_def)
  from main_zero_rows [OF h1 h2 h3 h4 h5 h6 h7 h8 h9 h10 h11 h12 h13, of empty_world]
  have "\<exists>w'. main ?E ?a empty_world = (Inr (), w') \<and>
         exit_status (fst (main ?E ?a empty_world)) = 0 \<and>
         files w' ''./permeation_cumul_x.png'' = Some ''image'' \<and>
         files w' ''./permeation_cumul_x.pdf'' = Some ''image'' \<and>
         files w' ''./permeation_cumul_x.xvg'' = Some [] \<and>
         files w' ''./permeation_selec_x.sel'' = Some ''resname SOL TIP3 and resid ''"
    unfolding paths .
  then show ?thesis using h1 h2 h3 h4 h5 h6 h7 h8 by blast
qed

subsection \<open>Failing runs\<close>

text \<open>
  C8. When the input path is not an existing file, the run prints the
  \<^verbatim>\<open>does not exist\<close> diagnostic (followed by the help text) and exits with status 1,
  and no file is written. The same diagnostic and status result when the file vanishes
  between the check and the read.
\<close>

theorem main_missing_file:
  "(\<not> isfile E (args_csv_file a) \<longrightarrow>
      main E a w = (Inl (SystemExit 1),
                    w\<lparr>stdout := stdout w @ [does_not_exist (args_csv_file a), help_text E]\<rparr>) \<and>
      exit_status (fst (main E a w)) = 1 \<and>
      files (snd (main E a w)) = files w) \<and>
   (isfile E (args_csv_file a) \<and> args_flag a \<noteq> [] \<and>
    read_csv E (args_csv_file a) = Inl FileNotFoundError \<longrightarrow>
      main E a w = (Inl (SystemExit 1),
                    w\<lparr>stdout := stdout w @ [does_not_exist (args_csv_file a)]\<rparr>) \<and>
      exit_status (fst (main E a w)) = 1 \<and>
      files (snd (main E a w)) = files w)"
proof (intro conjI impI)
  assume n: "\<not> isfile E (args_csv_file a)"
  then show m: "main E a w = (Inl (SystemExit 1),
                    w\<lparr>stdout := stdout w @ [does_not_exist (args_csv_file a), help_text E]\<rparr>)"
    by (simp add: main_def handle_args_def print_def does_not_exist_def)
  show "exit_status (fst (main E a w)) = 1" by (simp add: m)
  show "files (snd (main E a w)) = files w" by (simp add: m)
next
  assume h: "isfile E (args_csv_file a) \<and> args_flag a \<noteq> [] \<and>
    read_csv E (args_csv_file a) = Inl FileNotFoundError"
  then have ha: "handle_args E a w = (Inr a, w)" by (simp add: handle_args_def)
  have "load_body E (args_csv_file a) (args_time_offset a) = Inl FileNotFoundError"
    using h by (simp add: load_body_def)
  then have ld: "load_data E (args_csv_file a) (args_time_offset a) w
                   = (Inl (SystemExit 1), w\<lparr>stdout := stdout w @ [does_not_exist (args_csv_file a)]\<rparr>)"
    by (simp add: load_data_def print_def does_not_exist_def)
  show m: "main E a w = (Inl (SystemExit 1),
                    w\<lparr>stdout := stdout w @ [does_not_exist (args_csv_file a)]\<rparr>)"
    unfolding main_def ha Let_def using ld by simp
  show "exit_status (fst (main E a w)) = 1" by (simp add: m)
  show "files (snd (main E a w)) = files w" by (simp add: m)
qed

theorem main_missing_file_witness:
  "\<not> isfile ((example_env stable_sort_values (Inl FileNotFoundError))\<lparr>isfile := \<lambda>p. False\<rparr>)
       (args_csv_file example_args) \<and>
   main ((example_env stable_sort_values (Inl FileNotFoundError))\<lparr>isfile := \<lambda>p. False\<rparr>)
       example_args empty_world
     = (Inl (SystemExit 1),
        \<lparr>files = Map.empty,
         stdout = [''Error: The file '' @ [apostrophe] @ ''data.csv'' @ [apostrophe] @ '' does not exist.'',
                   ''usage'']\<rparr>) \<and>
   isfile (example_env stable_sort_values (Inl FileNotFoundError)) (args_csv_file example_args) \<and>
   args_flag example_args \<noteq> [] \<and>
   read_csv (example_env stable_sort_values (Inl FileNotFoundError)) (args_csv_file example_args)
     = Inl FileNotFoundError \<and>
   main (example_env stable_sort_values (Inl FileNotFoundError)) example_args empty_world
     = (Inl (SystemExit 1),
        \<lparr>files = Map.empty,
         stdout = [''Error: The file '' @ [apostrophe] @ ''data.csv'' @ [apostrophe] @ '' does not exist.'']\<rparr>)"
proof -
  let ?E = "example_env stable_sort_values (Inl FileNotFoundError)"
  let ?N = "?E\<lparr>isfile := \<lambda>p. False\<rparr>"
  have h1: "\<not> isfile ?N (args_csv_file example_args)" by simp
  have h2: "isfile ?E (args_csv_file example_args) \<and> args_flag example_args \<noteq> [] \<and>
            read_csv ?E (args_csv_file example_args) = Inl FileNotFoundError"
    by (simp add: example_env_def example_args_def)
  have a: "main ?N example_args empty_world
     = (Inl (SystemExit 1),
        empty_world\<lparr>stdout := stdout empty_world @ [does_not_exist (args_csv_file example_args), help_text ?N]\<rparr>)"
    using main_missing_file [of ?N example_args empty_world] h1 by blast
  have b: "main ?E example_args empty_world
     = (Inl (SystemExit 1),
        empty_world\<lparr>stdout := stdout empty_world @ [does_not_exist (args_csv_file example_args)]\<rparr>)"
    using main_missing_file [of ?E example_args empty_world] h2 by blast
  show ?thesis
    using h1 h2 a b
    by (simp add: empty_world_def does_not_exist_def example_args_def example_env_def)
qed

text \<open>
  C6, as the code has it. When the input file exists and pandas finds nothing to parse
  in it (\<^verbatim>\<open>EmptyDataError\<close>), the run prints the one-line diagnostic
  \<^verbatim>\<open>is empty or not a valid CSV file\<close> and exits with status 1 without writing a file.
  A file with a header and no data row is not such a failure.
\<close>

theorem main_empty_file:
  assumes "isfile E (args_csv_file a)"
    and "args_flag a \<noteq> []"
    and "read_csv E (args_csv_file a) = Inl EmptyDataError"
  shows "main E a w = (Inl (SystemExit 1),
                       w\<lparr>stdout := stdout w @ [empty_or_invalid (args_csv_file a)]\<rparr>) \<and>
         exit_status (fst (main E a w)) = 1 \<and>
         files (snd (main E a w)) = files w"
proof -
  have ha: "handle_args E a w = (Inr a, w)" using assms(1,2) by (simp add: handle_args_def)
  have "load_body E (args_csv_file a) (args_time_offset a) = Inl EmptyDataError"
    using assms(3) by (simp add: load_body_def)
  then have ld: "load_data E (args_csv_file a) (args_time_offset a) w
                   = (Inl (SystemExit 1), w\<lparr>stdout := stdout w @ [empty_or_invalid (args_csv_file a)]\<rparr>)"
    by (simp add: load_data_def print_def empty_or_invalid_def)
  have m: "main E a w = (Inl (SystemExit 1),
                       w\<lparr>stdout := stdout w @ [empty_or_invalid (args_csv_file a)]\<rparr>)"
    unfolding main_def ha Let_def using ld by simp
  then show ?thesis by simp
qed

theorem main_empty_file_witness:
  "isfile (example_env stable_sort_values (Inl EmptyDataError)) (args_csv_file example_args) \<and>
   args_flag example_args \<noteq> [] \<and>
   read_csv (example_env stable_sort_values (Inl EmptyDataError)) (args_csv_file example_args)
     = Inl EmptyDataError \<and>
   main (example_env stable_sort_values (Inl EmptyDataError)) example_args empty_world
     = (Inl (SystemExit 1),
        \<lparr>files = Map.empty,
         stdout = [''Error: The file '' @ [apostrophe] @ ''data.csv'' @ [apostrophe]
                     @ '' is empty or not a valid CSV file.'']\<rparr>) \<and>
   exit_status (fst (main (example_env stable_sort_values (Inl EmptyDataError)) example_args
     empty_world)) = 1"
proof -
  let ?E = "example_env stable_sort_values (Inl EmptyDataError)"
  have h1: "isfile ?E (args_csv_file example_args)" by (simp add: example_env_def)
  have h2: "args_flag example_args \<noteq> []" by (simp add: example_args_def)
  have h3: "read_csv ?E (args_csv_file example_args) = Inl EmptyDataError"
    by (simp add: example_env_def)
  show ?thesis
    using h1 h2 h3 main_empty_file [OF h1 h2 h3, of empty_world]
    by (simp add: empty_world_def empty_or_invalid_def example_args_def)
qed

text \<open>
  A file that holds only the header line \<^verbatim>\<open>time(ns) resid\<close> parses to a table with no
  rows; the run does not fail on it: it completes with exit status 0 and prints no
  diagnostic.
\<close>

theorem main_header_only_counterexample:
  "rows header_only = [] \<and>
   fst (main (example_env stable_sort_values (Inr header_only)) example_args empty_world) = Inr () \<and>
   exit_status (fst (main (example_env stable_sort_values (Inr header_only)) example_args
     empty_world)) = 0 \<and>
   stdout (snd (main (example_env stable_sort_values (Inr header_only)) example_args empty_world))
     = [''Saving plot as PNG: ./permeation_cumul_x.png'',
        ''Saving plot as PDF: ./permeation_cumul_x.pdf'',
        ''Saving XVG data: ./permeation_cumul_x.xvg'',
        ''Saving SEL file: ./permeation_selec_x.sel'']"
  by (simp add: main_def handle_args_def load_data_def load_body_def process_data_def
      generate_plot_def save_xvg_def save_sel_def get_column_def select_rows_def set_column_def
      stable_sort_values_def example_env_def example_args_def header_only_def empty_world_def
      print_def write_file_def list2str_def Let_def)

subsection \<open>Runs do not depend on the world they start from\<close>

lemma uniformI:
  assumes "\<And>w. f w = (fst (f empty_world),
                       effect (files (snd (f empty_world))) (stdout (snd (f empty_world))) w)"
  shows "uniform f"
  unfolding uniform_def using assms by blast

lemma uniform_return: "uniform (\<lambda>w. (r, w))"
  by (rule uniformI) (simp add: effect_def empty_world_def)

lemma uniform_and_then:
  assumes "uniform f" and "\<And>x. uniform (g x)"
  shows "uniform (and_then f g)"
proof -
  from assms(1) obtain r m ls where f: "\<And>w. f w = (r, effect m ls w)"
    unfolding uniform_def by blast
  show ?thesis
  proof (cases r)
    case (Inl e)
    then have "\<forall>w. and_then f g w = (Inl e, effect m ls w)"
      by (simp add: and_then_def f)
    then show ?thesis unfolding uniform_def by blast
  next
    case (Inr x)
    from assms(2) [of x] obtain r' m' ls' where g: "\<And>w. g x w = (r', effect m' ls' w)"
      unfolding uniform_def by blast
    have "\<forall>w. and_then f g w = (r', effect (m ++ m') (ls @ ls') w)"
      by (simp add: and_then_def f Inr g effect_def)
    then show ?thesis unfolding uniform_def by blast
  qed
qed

lemma uniform_handle_args: "uniform (handle_args E a)"
  by (rule uniformI) (simp add: handle_args_def effect_def empty_world_def print_def)

lemma uniform_load_data: "uniform (load_data E csv_file T)"
  by (rule uniformI)
    (simp add: load_data_def effect_def empty_world_def print_def split: sum.splits)

lemma uniform_generate_plot: "uniform (generate_plot E d flag T dirname)"
  by (rule uniformI)
    (simp add: generate_plot_def effect_def empty_world_def print_def write_file_def Let_def
      split: sum.splits option.splits)

lemma uniform_save_xvg: "uniform (save_xvg E d flag dirname)"
  by (rule uniformI)
    (simp add: save_xvg_def effect_def empty_world_def print_def write_file_def Let_def
      split: sum.splits option.splits prod.splits)

lemma uniform_save_sel: "uniform (save_sel E d flag dirname)"
  by (rule uniformI)
    (simp add: save_sel_def effect_def empty_world_def print_def write_file_def Let_def
      split: sum.splits option.splits)

lemma main_and_then:
  "main E a =
     and_then (handle_args E a) (\<lambda>a'.
       and_then (load_data E (args_csv_file a') (args_time_offset a')) (\<lambda>data.
         case process_data E data of
           Inl e \<Rightarrow> (\<lambda>w. (Inl (Uncaught e), w))
         | Inr p \<Rightarrow>
             and_then (generate_plot E p (args_flag a') (args_time_offset a') (out_dir a')) (\<lambda>u.
               and_then (save_xvg E p (args_flag a') (out_dir a')) (\<lambda>u.
                 save_sel E p (args_flag a') (out_dir a')))))"
  by (rule ext)
    (simp add: main_def and_then_def out_dir_def Let_def split: prod.splits sum.splits)

lemma uniform_main: "uniform (main E a)"
proof -
  have tail: "uniform (and_then (generate_plot E p (args_flag a') (args_time_offset a') (out_dir a')) (\<lambda>u.
               and_then (save_xvg E p (args_flag a') (out_dir a')) (\<lambda>u.
                 save_sel E p (args_flag a') (out_dir a'))))" for p a'
    by (intro uniform_and_then uniform_generate_plot uniform_save_xvg uniform_save_sel)
  have mid: "uniform (case process_data E data of
           Inl e \<Rightarrow> (\<lambda>w. (Inl (Uncaught e), w))
         | Inr p \<Rightarrow>
             and_then (generate_plot E p (args_flag a') (args_time_offset a') (out_dir a')) (\<lambda>u.
               and_then (save_xvg E p (args_flag a') (out_dir a')) (\<lambda>u.
                 save_sel E p (args_flag a') (out_dir a'))))" for data a'
    by (cases "process_data E data") (simp_all add: uniform_return tail)
  show ?thesis
    unfolding main_and_then
    by (intro uniform_and_then uniform_handle_args uniform_load_data mid)
qed

lemma save_xvg_success:
  "save_xvg E d flag dirname w = (Inr (), w') \<Longrightarrow>
     \<exists>out. files w' (dirname @ ''/permeation_cumul_'' @ flag @ ''.xvg'') = Some out \<and>
           (\<forall>q. q \<noteq> dirname @ ''/permeation_cumul_'' @ flag @ ''.xvg'' \<longrightarrow> files w' q = files w q)"
  by (auto simp: save_xvg_def print_def write_file_def Let_def
      split: sum.splits option.splits prod.splits)

lemma save_sel_success:
  "save_sel E d flag dirname w = (Inr (), w') \<Longrightarrow>
     \<exists>out. files w' (dirname @ ''/permeation_selec_'' @ flag @ ''.sel'') = Some out \<and>
           (\<forall>q. q \<noteq> dirname @ ''/permeation_selec_'' @ flag @ ''.sel'' \<longrightarrow> files w' q = files w q)"
  by (auto simp: save_sel_def print_def write_file_def Let_def
      split: sum.splits option.splits)

lemma main_success_files:
  assumes "main E a w = (Inr (), w')"
  shows "\<exists>x s. files w' (xvg_path a) = Some x \<and> files w' (sel_path a) = Some s"
proof -
  from assms obtain p w2 w3 where
    x: "save_xvg E p (args_flag a) (out_dir a) w2 = (Inr (), w3)" and
    s: "save_sel E p (args_flag a) (out_dir a) w3 = (Inr (), w')"
    by (auto simp: main_def handle_args_def out_dir_def Let_def
        split: prod.splits sum.splits if_splits)
  from save_xvg_success [OF x] obtain out where
    o: "files w3 (xvg_path a) = Some out" by (auto simp: xvg_path_def)
  from save_sel_success [OF s] obtain out' where
    o': "files w' (sel_path a) = Some out'" and
    k: "\<forall>q. q \<noteq> sel_path a \<longrightarrow> files w' q = files w3 q"
    by (auto simp: sel_path_def)
  have "files w' (xvg_path a) = Some out" using k o paths_distinct(6) [of a] by simp
  then show ?thesis using o' by blast
qed

text \<open>
  C9. Two runs with the same input file, flag, offset and output directory, under the
  same libraries and the same answers of the file system, end the same way and print
  the same lines; when they complete, both leave the same \<^verbatim>\<open>.xvg\<close> and the same
  \<^verbatim>\<open>.sel\<close> content, whatever files and output were there before each run (the second run
  may start from what the first one left).
\<close>

theorem main_deterministic:
  "fst (main E a w1) = fst (main E a w2) \<and>
   drop (length (stdout w1)) (stdout (snd (main E a w1)))
     = drop (length (stdout w2)) (stdout (snd (main E a w2))) \<and>
   (fst (main E a w1) = Inr () \<longrightarrow>
      (\<exists>xvg sel.
         files (snd (main E a w1)) (xvg_path a) = Some xvg \<and>
         files (snd (main E a w2)) (xvg_path a) = Some xvg \<and>
         files (snd (main E a w1)) (sel_path a) = Some sel \<and>
         files (snd (main E a w2)) (sel_path a) = Some sel))"
proof -
  from uniform_main [of E a] obtain r m ls where
    u: "\<And>w. main E a w = (r, effect m ls w)"
    unfolding uniform_def by blast
  have out: "drop (length (stdout w)) (stdout (snd (main E a w))) = ls" for w
    by (simp add: u effect_def)
  have fl: "\<exists>xvg sel.
         files (snd (main E a w1)) (xvg_path a) = Some xvg \<and>
         files (snd (main E a w2)) (xvg_path a) = Some xvg \<and>
         files (snd (main E a w1)) (sel_path a) = Some sel \<and>
         files (snd (main E a w2)) (sel_path a) = Some sel"
    if "r = Inr ()"
  proof -
    have "main E a empty_world = (Inr (), effect m ls empty_world)" using u that by simp
    from main_success_files [OF this] obtain x s where
      "files (effect m ls empty_world) (xvg_path a) = Some x" and
      "files (effect m ls empty_world) (sel_path a) = Some s" by blast
    then have "m (xvg_path a) = Some x" and "m (sel_path a) = Some s"
      by (simp_all add: effect_def empty_world_def)
    then have "files (effect m ls w) (xvg_path a) = Some x \<and>
               files (effect m ls w) (sel_path a) = Some s" for w
      by (simp add: effect_def map_add_def)
    then show ?thesis by (simp add: u)
  qed
  show ?thesis using out [of w1] out [of w2] fl by (simp add: u)
qed

theorem main_deterministic_witness:
  "fst (main (example_env stable_sort_values (Inr scenario)) example_args empty_world) = Inr () \<and>
   files (snd (main (example_env stable_sort_values (Inr scenario)) example_args empty_world))
     ''./permeation_cumul_x.xvg''
     = Some (''  2.00   1.00'' @ [newline] @ ''  5.00   2.00'' @ [newline]) \<and>
   files (snd (main (example_env stable_sort_values (Inr scenario)) example_args
            (snd (main (example_env stable_sort_values (Inr scenario)) example_args empty_world))))
     ''./permeation_cumul_x.xvg''
     = Some (''  2.00   1.00'' @ [newline] @ ''  5.00   2.00'' @ [newline]) \<and>
   files (snd (main (example_env stable_sort_values (Inr scenario)) example_args empty_world))
     ''./permeation_selec_x.sel'' = Some ''resname SOL TIP3 and resid 20 10'' \<and>
   files (snd (main (example_env stable_sort_values (Inr scenario)) example_args
            (snd (main (example_env stable_sort_values (Inr scenario)) example_args empty_world))))
     ''./permeation_selec_x.sel'' = Some ''resname SOL TIP3 and resid 20 10''"
proof -
  let ?E = "example_env stable_sort_values (Inr scenario)"
  let ?a = "example_args"
  let ?w2 = "snd (main ?E ?a empty_world)"
  let ?fig = "step_figure [CFloat (Fin 2), CFloat (Fin 5)] [CInt 1, CInt 2]
                (args_flag ?a) (args_time_offset ?a)"
  have paths: "png_path ?a = ''./permeation_cumul_x.png''" "pdf_path ?a = ''./permeation_cumul_x.pdf''"
    "xvg_path ?a = ''./permeation_cumul_x.xvg''" "sel_path ?a = ''./permeation_selec_x.sel''"
    by (simp_all add: png_path_def pdf_path_def xvg_path_def sel_path_def out_dir_def example_args_def)
  have h1: "isfile ?E (args_csv_file ?a)" by (simp add: example_env_def)
  have h2: "args_flag ?a \<noteq> []" by (simp add: example_args_def)
  have h3: "load_body ?E (args_csv_file ?a) (args_time_offset ?a) = Inr scenario"
    by (simp add: load_body_def example_env_def example_args_def scenario_def get_column_def
        select_rows_def float_gt_def float_lt_def)
  have h4: "process_data ?E scenario = Inr scenario_processed"
    by (simp add: process_data_def example_env_def stable_sort_values_def scenario_def
        scenario_processed_def set_column_def upt_rec)
  have h5: "get_column scenario_processed ''time(ns)'' = Inr [CFloat (Fin 2), CFloat (Fin 5)]"
    by (simp add: get_column_def scenario_processed_def)
  have h6: "get_column scenario_processed ''permeations_tot'' = Inr [CInt 1, CInt 2]"
    by (simp add: get_column_def scenario_processed_def)
  have h7: "get_column scenario_processed ''resid'' = Inr [CInt 20, CInt 10]"
    by (simp add: get_column_def scenario_processed_def)
  have h8: "plt_draw ?E ?fig = None" by (simp add: example_env_def)
  have h9: "savefig ?E ?fig (png_path ?a) = Inr ''image''" by (simp add: example_env_def)
  have h10: "savefig ?E ?fig (pdf_path ?a) = Inr ''image''" by (simp add: example_env_def)
  have h11: "open_w ?E (xvg_path ?a) = None" by (simp add: example_env_def)
  have h12: "xvg_lines (zip [CFloat (Fin 2), CFloat (Fin 5)] [CInt 1, CInt 2]) []
               = (None, ''  2.00   1.00'' @ [newline] @ ''  5.00   2.00'' @ [newline])"
    by (simp add: format_eval)
  have h13: "open_w ?E (sel_path ?a) = None" by (simp add: example_env_def)
  have sel: "list2str ?E [CInt 20, CInt 10] = ''20 10''"
    by (simp add: list2str_def str_int_def format_eval)
  have run: "main ?E ?a empty_world =
           (Inr (),
            empty_world\<lparr>files := (files empty_world)(png_path ?a \<mapsto> ''image'', pdf_path ?a \<mapsto> ''image'',
                          xvg_path ?a \<mapsto> ''  2.00   1.00'' @ [newline] @ ''  5.00   2.00'' @ [newline],
                          sel_path ?a \<mapsto> ''resname SOL TIP3 and resid '' @ list2str ?E [CInt 20, CInt 10]),
              stdout := stdout empty_world @ [''Saving plot as PNG: '' @ png_path ?a,
                                    ''Saving plot as PDF: '' @ pdf_path ?a,
                                    ''Saving XVG data: '' @ xvg_path ?a,
                                    ''Saving SEL file: '' @ sel_path ?a]\<rparr>)"
    using h1 h2 h3 h4 h5 h6 h7 h8 h9 h10 h11 h12 h13 by (rule main_run)
  have ok: "fst (main ?E ?a empty_world) = Inr ()" by (simp add: run)
  have x1: "files (snd (main ?E ?a empty_world)) (xvg_path ?a)
              = Some (''  2.00   1.00'' @ [newline] @ ''  5.00   2.00'' @ [newline])"
    using paths_distinct(6) [of ?a] by (simp add: run)
  have s1: "files (snd (main ?E ?a empty_world)) (sel_path ?a)
              = Some ''resname SOL TIP3 and resid 20 10''"
    by (simp add: run sel)
  from main_deterministic [of ?E ?a empty_world ?w2] ok
  obtain xvg sel' where
    "files (snd (main ?E ?a empty_world)) (xvg_path ?a) = Some xvg"
    "files (snd (main ?E ?a ?w2)) (xvg_path ?a) = Some xvg"
    "files (snd (main ?E ?a empty_world)) (sel_path ?a) = Some sel'"
    "files (snd (main ?E ?a ?w2)) (sel_path ?a) = Some sel'"
    by blast
  then have "files (snd (main ?E ?a ?w2)) (xvg_path ?a)
               = Some (''  2.00   1.00'' @ [newline] @ ''  5.00   2.00'' @ [newline])"
    and "files (snd (main ?E ?a ?w2)) (sel_path ?a) = Some ''resname SOL TIP3 and resid 20 10''"
    using x1 s1 by simp_all
  then show ?thesis using ok x1 s1 unfolding paths by blast
qed

subsection \<open>The threshold, from the loader to the output files\<close>








end
